theory Spec2Isabelle
  imports Main "HOL-Library.Word"
begin

section \<open>Data model\<close>

text \<open>
  Go strings and byte slices are both sequences of bytes; they are modelled by
  \<^typ>\<open>string\<close>. A Go \<open>error\<close> value is represented by its message. A pointer is an
  optional address (\<open>None\<close> is \<open>nil\<close>); the objects pointed to live in an explicit store,
  a list indexed by address, so that two pointers are equal exactly when they are the
  same address, as in Go.
\<close>

type_synonym bytes = string
type_synonym error = string
type_synonym ptr = "nat option"

text \<open>
  A panic of the Go runtime (here: the dereference of a nil pointer) is a value of
  its own, so that no model function hides it.
\<close>

datatype 'a outcome = Returns 'a | Panics

text \<open>
  \<open>ssh.PublicKey\<close> is an interface of the SSH library. The code only ever calls
  \<open>Marshal\<close> and \<open>Verify\<close> on it; a key is represented by its wire marshalling
  (\<open>Wire\<close>), and \<open>Verify\<close> is a parameter of the forward handler below.
  A compiled \<open>*regexp.Regexp\<close> is represented by its \<open>Match\<close> function.
\<close>

datatype PublicKey = Wire (Marshal: bytes)

type_synonym Regexp = "bytes \<Rightarrow> bool"

text \<open>
  Modelled from the spec: the declaration of the \<open>Account\<close> type (and of \<open>AccountMFA\<close>)
  is not among the source files. The fields are the ones the sources read and write
  (\<open>Username\<close>, \<open>Password\<close>, \<open>SSHKeysRaw\<close>, \<open>MFA.TOTP\<close>, \<open>Shell\<close>, \<open>Whitelist\<close>,
  \<open>Blacklist\<close>, \<open>whitelistRe\<close>, \<open>blacklistRe\<close>), with the meaning the data model of the
  specification gives them.
\<close>

record AccountMFA =
  TOTP :: string

record Account =
  Username :: string
  Password :: string
  SSHKeysRaw :: "string list"
  MFA :: AccountMFA
  Shell :: string
  Whitelist :: string
  Blacklist :: string
  whitelistRe :: "Regexp option"
  blacklistRe :: "Regexp option"

type_synonym heap = "Account list"

definition deref :: "heap \<Rightarrow> ptr \<Rightarrow> Account option" where
  "deref h p = (case p of None \<Rightarrow> None | Some a \<Rightarrow> (if a < length h then Some (h ! a) else None))"

definition zero_Account :: Account where
  "zero_Account = \<lparr>Username = [], Password = [], SSHKeysRaw = [], MFA = \<lparr>TOTP = []\<rparr>,
     Shell = [], Whitelist = [], Blacklist = [], whitelistRe = None, blacklistRe = None\<rparr>"

text \<open>The struct \<open>AccountKey\<close>: a mapping of an ssh public key to an account.\<close>

record AccountKey =
  Account :: ptr
  Key :: PublicKey
  Comment :: string
  Options :: "string list"

text \<open>
  \<open>NewAccountKey\<close>. The parser \<open>ssh.ParseAuthorizedKey\<close> belongs to the SSH library and
  is a parameter: it returns an error or the key, its comment and its options.
\<close>

type_synonym parser = "bytes \<Rightarrow> error + (PublicKey \<times> string \<times> string list)"

definition NewAccountKey :: "parser \<Rightarrow> ptr \<Rightarrow> bytes \<Rightarrow> error + AccountKey" where
  "NewAccountKey ParseAuthorizedKey account rawKey =
     (case ParseAuthorizedKey rawKey of
        Inl err \<Rightarrow> Inl err
      | Inr (key, comment, options) \<Rightarrow>
          Inr \<lparr>Account = account, Key = key, Comment = comment, Options = options\<rparr>)"

definition ID :: "AccountKey \<Rightarrow> string" where
  "ID key = Marshal (Key key)"

section \<open>The account store and its reload\<close>

text \<open>
  The configuration. Its type declaration is not among the source files either; the
  fields are the ones the sources read.
\<close>

record Config =
  Accounts :: string
  ForceUser :: string
  ForceCommand :: string

text \<open>
  The daemon state \<open>SSHDState\<close>: the two maps of the account store, from a username to
  (a pointer to) its account and from a key identity to its \<open>AccountKey\<close>, and the
  notification endpoints of the forwarding variant.
\<close>

record SSHDState =
  Config :: Config
  accounts :: "string \<rightharpoonup> ptr"
  keys :: "string \<rightharpoonup> AccountKey"
  WebhookProviders :: "string list"

text \<open>
  \<open>reloadAccounts\<close>. The loop
  \<^verbatim>\<open>for _, account := range rawAccounts { ... accounts[account.Username] = &account ... }\<close>
  declares the variable \<open>account\<close> once for the whole loop (the semantics of \<open>range\<close>
  in every Go release before 1.22, which the sources, written against the 2016 API of
  their libraries and without a module file, are compiled with): each iteration
  assigns the next element to that one variable, and \<open>&account\<close> is the same address in
  every iteration. The model allocates the variable at address \<open>a\<close> and stores each
  element there.

  The inner loop over the raw keys of one account: a key that does not parse is
  skipped (\<open>continue\<close>), a key whose identity is already in \<open>keys\<close> aborts the reload
  (\<open>None\<close>).
\<close>

fun reload_keys ::
  "parser \<Rightarrow> ptr \<Rightarrow> string list \<Rightarrow> (string \<rightharpoonup> AccountKey) \<Rightarrow> (string \<rightharpoonup> AccountKey) option" where
  "reload_keys P account [] ks = Some ks"
| "reload_keys P account (raw # rest) ks =
     (case NewAccountKey P account raw of
        Inl err \<Rightarrow> reload_keys P account rest ks
      | Inr key \<Rightarrow>
          (case ks (ID key) of
             Some other \<Rightarrow> None
           | None \<Rightarrow> reload_keys P account rest (ks(ID key \<mapsto> key))))"

text \<open>
  The outer loop over the accounts. It returns the store as the loop leaves it and
  the two fresh maps, or \<open>None\<close> for them when the loop returned early.
\<close>

fun reload_loop ::
  "parser \<Rightarrow> nat \<Rightarrow> Account list \<Rightarrow> heap \<Rightarrow> (string \<rightharpoonup> ptr) \<Rightarrow> (string \<rightharpoonup> AccountKey) \<Rightarrow>
     heap \<times> ((string \<rightharpoonup> ptr) \<times> (string \<rightharpoonup> AccountKey)) option" where
  "reload_loop P a [] h accs ks = (h, Some (accs, ks))"
| "reload_loop P a (raw # rest) h accs ks =
     (let h1 = h[a := raw] in
      case accs (Username (h1 ! a)) of
        Some other \<Rightarrow> (h1, None)
      | None \<Rightarrow>
          (case reload_keys P (Some a) (SSHKeysRaw (h1 ! a)) ks of
             None \<Rightarrow> (h1, None)
           | Some ks' \<Rightarrow> reload_loop P a rest h1 (accs(Username (h1 ! a) \<mapsto> Some a)) ks'))"

text \<open>
  \<open>reloadAccounts\<close> itself. \<open>LoadAccounts\<close> reads the accounts file and is not among the
  source files; it is a parameter, from the path to an error or the accounts read.
  The two maps of the state are assigned only after the loop has run to its end.
\<close>

definition reloadAccounts ::
  "parser \<Rightarrow> (string \<Rightarrow> error + Account list) \<Rightarrow> heap \<times> SSHDState \<Rightarrow> heap \<times> SSHDState" where
  "reloadAccounts P LoadAccounts w =
     (case w of (h, s) \<Rightarrow>
        (case LoadAccounts (Accounts (Config s)) of
           Inl err \<Rightarrow> (h, s)
         | Inr rawAccounts \<Rightarrow>
             (case reload_loop P (length h) rawAccounts (h @ [zero_Account]) Map.empty Map.empty of
                (h', None) \<Rightarrow> (h', s)
              | (h', Some (accs, ks)) \<Rightarrow> (h', s\<lparr>accounts := accs, keys := ks\<rparr>))))"

section \<open>The public-key callback of the handshake\<close>

definition badKeyError :: error where
  "badKeyError = ''This is not the castle you are looking for...''"

text \<open>
  The \<open>PublicKeyCallback\<close> of \<open>Run\<close>: \<open>Returns None\<close> is the pair \<open>(nil, nil)\<close>, with
  which the handshake proceeds; \<open>Returns (Some e)\<close> is \<open>(nil, e)\<close>, with which it fails.
\<close>

definition PublicKeyCallback :: "heap \<Rightarrow> SSHDState \<Rightarrow> string \<Rightarrow> PublicKey \<Rightarrow> error option outcome" where
  "PublicKeyCallback h s user key =
     (case keys s (Marshal key) of
        None \<Rightarrow> Returns (Some badKeyError)
      | Some accountKey \<Rightarrow>
          (case deref h (Account accountKey) of
             None \<Rightarrow> Panics
           | Some account \<Rightarrow>
               (if user \<noteq> Username account then Returns (Some badKeyError) else Returns None)))"

section \<open>Sessions and forward channels\<close>

text \<open>
  The handles the SSH library gives out (channels, TCP connections) are numbers.
  \<open>ServerConn\<close> carries what the code reads from \<open>*ssh.ServerConn\<close>.
\<close>

record ServerConn =
  User :: string
  RemoteAddr :: string

text \<open>
  The struct \<open>SSHSession\<close> of the forwarding variant. The field \<open>State\<close> points to the
  one daemon state, which the handler only reads: the model passes that state (and the
  store) as arguments. \<open>Agent\<close> is the agent client, represented by the channel it was
  opened on.
\<close>

record SSHSession =
  UUID :: string
  Account :: ptr
  Conn :: ServerConn
  Agent :: "nat option"
  Proxies :: "nat list"
  verified :: bool

definition NewSSHSession :: "SSHDState \<Rightarrow> string \<Rightarrow> ServerConn \<Rightarrow> SSHSession" where
  "NewSSHSession state strID conn =
     \<lparr>UUID = strID,
      Account = (case accounts state (User conn) of None \<Rightarrow> None | Some p \<Rightarrow> p),
      Conn = conn, Agent = None, Proxies = [], verified = False\<rparr>"

record channelOpenDirectMsg =
  RAddr :: string
  RPort :: "32 word"
  LAddr :: string
  LPort :: "32 word"

definition zero_msg :: channelOpenDirectMsg where
  "zero_msg = \<lparr>RAddr = [], RPort = 0, LAddr = [], LPort = 0\<rparr>"

record NewChannel =
  ChannelType :: string
  ExtraData :: bytes

datatype RejectionReason = Prohibited | ConnectionFailed | UnknownChannelType | ResourceShortage

text \<open>A signer of the agent: its public key and what signing a message returns.\<close>

record Signer =
  PublicKey :: PublicKey
  Sign :: "bytes \<Rightarrow> error + bytes"

text \<open>
  Modelled from the spec: the certificate authority (\<open>s.State.ca\<close> and its \<open>Generate\<close>) is
  not among the source files. Following section 4.2 of the specification, \<open>Generate\<close>
  produces a fresh key pair and a user certificate over its public half whose list of
  principals is exactly the principal given, whose key identifier is the session
  UUID, and which carries a \<open>force-command\<close> critical option exactly when the forced
  command is non-empty. The generation of the key pair may fail; its result is an
  input of the model.
\<close>

record Certificate =
  CertKey :: PublicKey
  KeyId :: string
  ValidPrincipals :: "string list"
  CriticalOptions :: "(string \<times> string) list"

definition Generate ::
  "(error + PublicKey \<times> bytes) \<Rightarrow> string \<Rightarrow> string \<Rightarrow> string \<Rightarrow> error + (Certificate \<times> bytes)" where
  "Generate keypair session_uuid subject force_command =
     (case keypair of
        Inl err \<Rightarrow> Inl err
      | Inr (pub, priv) \<Rightarrow>
          Inr (\<lparr>CertKey = pub, KeyId = session_uuid, ValidPrincipals = [subject],
                 CriticalOptions =
                   (if force_command \<noteq> [] then [(''force-command'', force_command)] else [])\<rparr>,
               priv))"

text \<open>The struct \<open>agent.AddedKey\<close>, with the fields the code sets.\<close>

record AddedKey =
  PrivateKey :: bytes
  Certificate :: Certificate
  LifetimeSecs :: "32 word"
  Comment :: string

text \<open>
  What one run of the handler gets from outside: the result of each call that leaves
  the process. The handler makes each of these calls at most once.
\<close>

record io =
  OpenChannel :: "error + nat"
  Signers :: "error + Signer list"
  rand_Read :: "error + bytes"
  keypair :: "error + PublicKey \<times> bytes"
  Agent_Add :: "error option"
  Dial :: "error + nat"
  Accept :: "error + nat"

text \<open>
  The two library functions whose result the handler depends on: the verification of
  a signature under a public key (\<open>None\<close> is the nil error), and \<open>ssh.Unmarshal\<close>, which
  is given the extra data and the message value to fill and returns the message as it
  left it together with its error.
\<close>

record lib =
  Verify :: "PublicKey \<Rightarrow> bytes \<Rightarrow> bytes \<Rightarrow> error option"
  Unmarshal :: "bytes \<Rightarrow> channelOpenDirectMsg \<Rightarrow> channelOpenDirectMsg \<times> error option"

text \<open>
  The effects of the handler, in the order in which it performs them. The goroutines
  that discard out-of-band requests are left out.
\<close>

datatype event =
    Open_Channel string
  | Log_Error string
  | Log_Info string
  | Reject RejectionReason string
  | Agent_Signers nat
  | Random_Token
  | Signer_Sign PublicKey
  | CA_Generate string string string
  | Agent_Add_Key nat AddedKey
  | Notify_Session_Start string string string string string
  | Net_Dial string string
  | Accept_Channel
  | Start_Proxy nat "nat option" nat
  | Nil_Dereference

subsection \<open>The policy matcher\<close>

definition canConnectTo :: "heap \<Rightarrow> SSHSession \<Rightarrow> string \<Rightarrow> bool outcome" where
  "canConnectTo h s addr =
     (case deref h (Account s) of
        None \<Rightarrow> Panics
      | Some account \<Rightarrow>
          (if (case whitelistRe account of None \<Rightarrow> False | Some re \<Rightarrow> \<not> re addr) then Returns False
           else if (case blacklistRe account of None \<Rightarrow> False | Some re \<Rightarrow> re addr) then Returns False
           else Returns True))"

subsection \<open>Issuing the temporary credential\<close>

definition addTempAuth ::
  "SSHDState \<Rightarrow> heap \<Rightarrow> io \<Rightarrow> SSHSession \<Rightarrow> string \<Rightarrow> error option outcome \<times> event list" where
  "addTempAuth st h io s addr =
     (case (if ForceUser (Config st) \<noteq> [] then Returns (ForceUser (Config st))
            else (case deref h (Account s) of None \<Rightarrow> Panics | Some account \<Rightarrow> Returns (Username account))) of
        Panics \<Rightarrow> (Panics, [Nil_Dereference])
      | Returns username \<Rightarrow>
          (case Generate (keypair io) (UUID s) username (ForceCommand (Config st)) of
             Inl err \<Rightarrow> (Returns (Some err), [CA_Generate (UUID s) username (ForceCommand (Config st))])
           | Inr (cert, privateKey) \<Rightarrow>
               (case Agent s of
                  None \<Rightarrow> (Panics, [CA_Generate (UUID s) username (ForceCommand (Config st)), Nil_Dereference])
                | Some agent \<Rightarrow>
                    (Returns (Agent_Add io),
                     [CA_Generate (UUID s) username (ForceCommand (Config st)),
                      Agent_Add_Key agent
                        \<lparr>PrivateKey = privateKey, Certificate = cert, LifetimeSecs = 10,
                         Comment = ''temporary ssh certificate ('' @ addr @ '')''\<rparr>]))))"

definition notifyConnection :: "SSHDState \<Rightarrow> SSHSession \<Rightarrow> string \<Rightarrow> event list" where
  "notifyConnection st s addr =
     map (\<lambda>wp. Notify_Session_Start wp (User (Conn s)) (UUID s) addr (RemoteAddr (Conn s)))
       (WebhookProviders st)"

subsection \<open>The forward handler\<close>

text \<open>The verb \<open>%d\<close> of \<open>fmt.Sprintf\<close> on an unsigned number.\<close>

fun decimal :: "nat \<Rightarrow> string" where
  "decimal n =
     (if n < 10 then [''0123456789'' ! n] else decimal (n div 10) @ [''0123456789'' ! (n mod 10)])"

declare decimal.simps [simp del]

text \<open>
  The loop over the signers of the agent. It ends in one of three ways: the handler
  returns after rejecting the channel (\<open>Loop_Return\<close>), the loop is left by \<open>break\<close>
  after the session was marked verified (\<open>Loop_Break\<close>), or the signers are exhausted
  (\<open>Loop_End\<close>).
\<close>

datatype loop_exit = Loop_Return | Loop_Break | Loop_End

fun verify_signers ::
  "lib \<Rightarrow> SSHDState \<Rightarrow> io \<Rightarrow> SSHSession \<Rightarrow> Signer list \<Rightarrow> loop_exit \<times> event list" where
  "verify_signers L st io s [] = (Loop_End, [])"
| "verify_signers L st io s (signer # rest) =
     (case keys st (Marshal (PublicKey signer)) of
        None \<Rightarrow> verify_signers L st io s rest
      | Some accountKey \<Rightarrow>
          (if AccountKey.Account accountKey \<noteq> Account s then verify_signers L st io s rest
           else
             (case rand_Read io of
                Inl err \<Rightarrow>
                  (Loop_Return,
                   [Random_Token,
                    Log_Error ''Rejecting forward: failed to generate random token'',
                    Reject Prohibited ''cannot generate random token''])
              | Inr randomToken \<Rightarrow>
                  (case Sign signer randomToken of
                     Inl err \<Rightarrow>
                       (Loop_Return,
                        [Random_Token, Signer_Sign (PublicKey signer),
                         Log_Error ''Rejecting forward: failed to sign random token'',
                         Reject Prohibited ''cannot sign random token''])
                   | Inr sig \<Rightarrow>
                       (case Verify L (Key accountKey) randomToken sig of
                          Some err \<Rightarrow>
                            (Loop_Return,
                             [Random_Token, Signer_Sign (PublicKey signer),
                              Log_Error ''Rejecting forward: failed to verify random token signature'',
                              Reject Prohibited ''signature verification failed''])
                        | None \<Rightarrow>
                            (Loop_Break,
                             [Random_Token, Signer_Sign (PublicKey signer),
                              Log_Info ''Public key verification completed'']))))))"

text \<open>
  The block \<open>if !s.verified { ... }\<close>: \<open>None\<close> for the session when the handler has
  returned, the session to go on with otherwise.
\<close>

definition verification ::
  "lib \<Rightarrow> SSHDState \<Rightarrow> io \<Rightarrow> SSHSession \<Rightarrow> nat \<Rightarrow> bool \<times> SSHSession \<times> event list" where
  "verification L st io s agent =
     (if \<not> verified s then
        (case Signers io of
           Inl err \<Rightarrow>
             (False, s,
              [Agent_Signers agent,
               Log_Error ''Rejecting forward: failed to get list of signers from agent'',
               Reject Prohibited ''agent will not give us a list of signers''])
         | Inr signers \<Rightarrow>
             (case verify_signers L st io s signers of
                (Loop_Return, tr) \<Rightarrow> (False, s, Agent_Signers agent # tr)
              | (Loop_Break, tr) \<Rightarrow> (True, s\<lparr>verified := True\<rparr>, Agent_Signers agent # tr)
              | (Loop_End, tr) \<Rightarrow> (True, s, Agent_Signers agent # tr)))
      else (True, s, []))"

text \<open>
  The rest of the handler, from the decoding of the forward request on. The error of
  \<open>ssh.Unmarshal\<close> is not looked at, and neither is the error of \<open>Accept\<close>: a failed
  \<open>Accept\<close> leaves the nil channel.
\<close>

definition forward ::
  "lib \<Rightarrow> SSHDState \<Rightarrow> heap \<Rightarrow> io \<Rightarrow> NewChannel \<Rightarrow> SSHSession \<Rightarrow> nat \<Rightarrow> SSHSession \<times> event list" where
  "forward L st h io newChannel s agentChan =
     (let msg = fst (Unmarshal L (ExtraData newChannel) zero_msg);
          address = RAddr msg @ '':'' @ decimal (unat (RPort msg))
      in case canConnectTo h s (RAddr msg) of
           Panics \<Rightarrow> (s, [Nil_Dereference])
         | Returns False \<Rightarrow>
             (s, [Log_Error ''Rejecting forward: destination does not match whitelist/blacklist checks'',
                  Reject ConnectionFailed ''invalid permissions''])
         | Returns True \<Rightarrow>
             (case addTempAuth st h io s (RAddr msg) of
                (Panics, tr) \<Rightarrow> (s, tr)
              | (Returns (Some err), tr) \<Rightarrow>
                  (s, tr @ [Log_Error ''Rejecting forward: failed to generate or add ssh certificate'',
                            Reject Prohibited ''failed to generate or add ssh certificate''])
              | (Returns None, tr) \<Rightarrow>
                  (case Dial io of
                     Inl err \<Rightarrow>
                       (s, tr @ notifyConnection st s (RAddr msg) @
                           [Net_Dial ''tcp'' address,
                            Log_Error ''Rejecting forward: failed to open TCP connection to remote host'',
                            Reject ConnectionFailed (''error: '' @ err)])
                   | Inr conn \<Rightarrow>
                       (s\<lparr>Proxies := Proxies s @ [conn]\<rparr>,
                        tr @ notifyConnection st s (RAddr msg) @
                          [Net_Dial ''tcp'' address, Accept_Channel,
                           Start_Proxy agentChan
                             (case Accept io of Inl err \<Rightarrow> None | Inr channel \<Rightarrow> Some channel) conn]))))"

definition handleChannelForward ::
  "lib \<Rightarrow> SSHDState \<Rightarrow> heap \<Rightarrow> io \<Rightarrow> NewChannel \<Rightarrow> SSHSession \<Rightarrow> SSHSession \<times> event list" where
  "handleChannelForward L st h io newChannel s =
     (case OpenChannel io of
        Inl err \<Rightarrow>
          (s, [Open_Channel ''auth-agent@openssh.com'',
               Log_Error ''Rejecting forward: failed to open ssh agent'',
               Reject Prohibited ''you must have an ssh agent open and forwarded''])
      | Inr agentChan \<Rightarrow>
          (case verification L st io (s\<lparr>Agent := Some agentChan\<rparr>) agentChan of
             (False, s1, tr1) \<Rightarrow> (s1, Open_Channel ''auth-agent@openssh.com'' # tr1)
           | (True, s1, tr1) \<Rightarrow>
               (case forward L st h io newChannel s1 agentChan of
                  (s2, tr2) \<Rightarrow> (s2, Open_Channel ''auth-agent@openssh.com'' # tr1 @ tr2))))"

definition handleChannel ::
  "lib \<Rightarrow> SSHDState \<Rightarrow> heap \<Rightarrow> io \<Rightarrow> NewChannel \<Rightarrow> SSHSession \<Rightarrow> SSHSession \<times> event list" where
  "handleChannel L st h io newChannel s =
     (if ChannelType newChannel = ''direct-tcpip'' then handleChannelForward L st h io newChannel s
      else (s, [Log_Error ''Rejecting channel with invalid channel type'',
                Reject UnknownChannelType ''unknown channel type'']))"

text \<open>
  The channels of one session, handled one after the other, each with the results its
  own calls get.
\<close>

fun handle_all ::
  "lib \<Rightarrow> SSHDState \<Rightarrow> heap \<Rightarrow> (io \<times> NewChannel) list \<Rightarrow> SSHSession \<Rightarrow> SSHSession \<times> event list" where
  "handle_all L st h [] s = (s, [])"
| "handle_all L st h ((io, newChannel) # rest) s =
     (case handleChannel L st h io newChannel s of
        (s1, tr1) \<Rightarrow> (case handle_all L st h rest s1 of (s2, tr2) \<Rightarrow> (s2, tr1 @ tr2)))"

subsection \<open>The teardown of a proxied channel\<close>

text \<open>
  After \<open>Accept\<close> the handler starts two goroutines, one per copy direction; each
  calls \<open>closer.Do(closeFunc)\<close> when its \<open>io.Copy\<close> returns. \<open>closer\<close> is a \<open>sync.Once\<close>:
  \<open>Do\<close> runs the function if and only if it is the first call of \<open>Do\<close> on this \<open>Once\<close>,
  and calls of \<open>Do\<close> exclude one another, so that a run of the two goroutines is a
  sequence of such calls. The state counts how often each endpoint was closed.
\<close>

record proxy =
  closer_done :: bool
  agentChan_closed :: nat
  channel_closed :: nat
  conn_closed :: nat

definition new_proxy :: proxy where
  "new_proxy = \<lparr>closer_done = False, agentChan_closed = 0, channel_closed = 0, conn_closed = 0\<rparr>"

definition closeFunc :: "proxy \<Rightarrow> proxy" where
  "closeFunc p =
     p\<lparr>agentChan_closed := Suc (agentChan_closed p), channel_closed := Suc (channel_closed p),
       conn_closed := Suc (conn_closed p)\<rparr>"

definition Once_Do :: "(proxy \<Rightarrow> proxy) \<Rightarrow> proxy \<Rightarrow> proxy" where
  "Once_Do f p = (if closer_done p then p else (f p)\<lparr>closer_done := True\<rparr>)"

datatype direction = Conn_To_Channel | Channel_To_Conn

text \<open>What a goroutine does once its copy has returned, and a run of such triggers.\<close>

definition copy_returned :: "direction \<Rightarrow> proxy \<Rightarrow> proxy" where
  "copy_returned d p = Once_Do closeFunc p"

fun triggers :: "direction list \<Rightarrow> proxy \<Rightarrow> proxy" where
  "triggers [] p = p"
| "triggers (d # ds) p = triggers ds (copy_returned d p)"

section \<open>The wire decoding of the forward request\<close>

text \<open>
  \<open>ssh.Unmarshal\<close> of the SSH library, on a struct without message-type tag and with the
  fields of \<open>channelOpenDirectMsg\<close>: it fails on empty data; otherwise it reads the
  fields in the order of their declaration, a string as a big-endian 32-bit length
  followed by that many bytes and a \<open>uint32\<close> as four big-endian bytes, and stores each
  field as soon as it is read; it returns at the first field that cannot be read, and
  fails at the end when bytes are left over.
\<close>

definition be_uint32 :: "bytes \<Rightarrow> 32 word" where
  "be_uint32 b = word_of_nat (foldl (\<lambda>n c. n * 256 + of_char c) 0 (take 4 b))"

definition parseUint32 :: "bytes \<Rightarrow> (32 word \<times> bytes) option" where
  "parseUint32 data = (if length data < 4 then None else Some (be_uint32 data, drop 4 data))"

definition parseString :: "bytes \<Rightarrow> (bytes \<times> bytes) option" where
  "parseString data =
     (if length data < 4 then None
      else (let n = unat (be_uint32 data); rest = drop 4 data
            in if length rest < n then None else Some (take n rest, drop n rest)))"

definition ssh_Unmarshal :: "bytes \<Rightarrow> channelOpenDirectMsg \<Rightarrow> channelOpenDirectMsg \<times> error option" where
  "ssh_Unmarshal data out =
     (if data = [] then (out, Some ''ssh: parse error in message type 0'')
      else case parseString data of
        None \<Rightarrow> (out, Some ''ssh: unmarshal error for field RAddr of type channelOpenDirectMsg'')
      | Some (raddr, data1) \<Rightarrow>
          (case parseUint32 data1 of
             None \<Rightarrow> (out\<lparr>RAddr := raddr\<rparr>, Some ''ssh: short read'')
           | Some (rport, data2) \<Rightarrow>
               (case parseString data2 of
                  None \<Rightarrow>
                    (out\<lparr>RAddr := raddr, RPort := rport\<rparr>,
                     Some ''ssh: unmarshal error for field LAddr of type channelOpenDirectMsg'')
                | Some (laddr, data3) \<Rightarrow>
                    (case parseUint32 data3 of
                       None \<Rightarrow> (out\<lparr>RAddr := raddr, RPort := rport, LAddr := laddr\<rparr>, Some ''ssh: short read'')
                     | Some (lport, data4) \<Rightarrow>
                         (out\<lparr>RAddr := raddr, RPort := rport, LAddr := laddr, LPort := lport\<rparr>,
                          if data4 \<noteq> [] then Some ''ssh: parse error in message type 0'' else None)))))"

section \<open>Vocabulary of the statements\<close>

text \<open>
  A signer of the agent whose key is known to the store and belongs to the account of
  the session: the two tests at the head of the loop body.
\<close>

definition known_for :: "SSHDState \<Rightarrow> SSHSession \<Rightarrow> Signer \<Rightarrow> bool" where
  "known_for st s signer =
     (case keys st (Marshal (PublicKey signer)) of
        None \<Rightarrow> False
      | Some accountKey \<Rightarrow> AccountKey.Account accountKey = Account s)"

text \<open>
  The key identities an accounts file contributes: those of the raw keys that parse,
  in the order of the file.
\<close>

definition ids_of :: "parser \<Rightarrow> string list \<Rightarrow> string list" where
  "ids_of P raws =
     concat (map (\<lambda>raw. case P raw of Inl err \<Rightarrow> [] | Inr (key, comment, options) \<Rightarrow> [Marshal key]) raws)"

definition key_ids :: "parser \<Rightarrow> Account \<Rightarrow> string list" where
  "key_ids P account = ids_of P (SSHKeysRaw account)"

text \<open>
  The policy decision in the words of the specification: allow if and only if the
  whitelist is absent or matches the host, and the blacklist is absent or does not
  match it.
\<close>

definition policy_allows :: "Account \<Rightarrow> string \<Rightarrow> bool" where
  "policy_allows account host \<longleftrightarrow>
     (case whitelistRe account of None \<Rightarrow> True | Some re \<Rightarrow> re host) \<and>
     (case blacklistRe account of None \<Rightarrow> True | Some re \<Rightarrow> \<not> re host)"

text \<open>
  The effects the verification block can have, and the effects that belong to the
  issuance of the credential and to the stages after it.
\<close>

fun verification_event :: "event \<Rightarrow> bool" where
  "verification_event (Agent_Signers agent) = True"
| "verification_event Random_Token = True"
| "verification_event (Signer_Sign key) = True"
| "verification_event (Log_Error msg) = True"
| "verification_event (Log_Info msg) = True"
| "verification_event (Reject reason msg) = (reason = Prohibited)"
| "verification_event e = False"

fun issuance_or_later :: "event \<Rightarrow> bool" where
  "issuance_or_later (CA_Generate uuid username command) = True"
| "issuance_or_later (Agent_Add_Key agent key) = True"
| "issuance_or_later (Notify_Session_Start wp user uuid addr remote) = True"
| "issuance_or_later (Net_Dial network address) = True"
| "issuance_or_later Accept_Channel = True"
| "issuance_or_later (Start_Proxy agentChan channel conn) = True"
| "issuance_or_later e = False"

section \<open>Concrete inputs\<close>

text \<open>
  A small deployment on which the statements below are run: two accounts, \<open>alice\<close>
  with the key \<open>K1\<close> and a whitelist that matches the host \<open>db-01\<close> only, \<open>bob\<close> with
  the key \<open>K2\<close> and a blacklist that matches \<open>evil.example.com\<close>.
\<close>

definition alice :: Account where
  "alice = zero_Account\<lparr>Username := ''alice'', SSHKeysRaw := [''K1''],
     Whitelist := ''^db-01$'', whitelistRe := Some (\<lambda>host. host = ''db-01'')\<rparr>"

definition bob :: Account where
  "bob = zero_Account\<lparr>Username := ''bob'', SSHKeysRaw := [''K2''],
     Blacklist := ''^evil[.]example[.]com$'', blacklistRe := Some (\<lambda>host. host = ''evil.example.com'')\<rparr>"

definition parse_line :: parser where
  "parse_line raw = (if raw = [] then Inl ''ssh: no key found'' else Inr (Wire raw, [], []))"

definition config0 :: Config where
  "config0 = \<lparr>Accounts = ''accounts.json'', ForceUser = [], ForceCommand = []\<rparr>"

definition state0 :: SSHDState where
  "state0 = \<lparr>Config = config0, accounts = Map.empty, keys = Map.empty, WebhookProviders = [''discord'']\<rparr>"

text \<open>A store with the two accounts at their own addresses, as the data model describes it.\<close>

definition heap1 :: heap where
  "heap1 = [alice, bob]"

definition state1 :: SSHDState where
  "state1 = \<lparr>Config = config0,
     accounts = [''alice'' \<mapsto> Some 0, ''bob'' \<mapsto> Some 1],
     keys = [''K1'' \<mapsto> \<lparr>AccountKey.Account = Some 0, Key = Wire ''K1'', AccountKey.Comment = [], Options = []\<rparr>,
             ''K2'' \<mapsto> \<lparr>AccountKey.Account = Some 1, Key = Wire ''K2'', AccountKey.Comment = [], Options = []\<rparr>],
     WebhookProviders = [''discord'']\<rparr>"

definition session_alice :: SSHSession where
  "session_alice = NewSSHSession state1 ''uuid-1'' \<lparr>User = ''alice'', RemoteAddr = ''10.0.0.7:50022''\<rparr>"

definition session_bob :: SSHSession where
  "session_bob = NewSSHSession state1 ''uuid-2'' \<lparr>User = ''bob'', RemoteAddr = ''10.0.0.8:50023''\<rparr>"

text \<open>
  An agent holding \<open>K1\<close> (its signatures verify), one holding \<open>K2\<close>, and one that
  claims \<open>K1\<close> but whose signatures do not verify.
\<close>

definition signer1 :: Signer where
  "signer1 = \<lparr>PublicKey = Wire ''K1'', Sign = (\<lambda>token. Inr (''K1 signed '' @ token))\<rparr>"

definition signer2 :: Signer where
  "signer2 = \<lparr>PublicKey = Wire ''K2'', Sign = (\<lambda>token. Inr (''K2 signed '' @ token))\<rparr>"

definition forger1 :: Signer where
  "forger1 = \<lparr>PublicKey = Wire ''K1'', Sign = (\<lambda>token. Inr (''K9 signed '' @ token))\<rparr>"

definition lib0 :: lib where
  "lib0 = \<lparr>Verify = (\<lambda>key token sig.
              if sig = Marshal key @ '' signed '' @ token then None
              else Some ''ssh: signature did not verify''),
            Unmarshal = ssh_Unmarshal\<rparr>"

definition io1 :: io where
  "io1 = \<lparr>OpenChannel = Inr 1, Signers = Inr [signer1], rand_Read = Inr (replicate 128 (CHR ''r'')),
     keypair = Inr (Wire ''EK'', ''ek-private''), Agent_Add = None, Dial = Inr 7, Accept = Inr 3\<rparr>"

text \<open>
  The extra data of a forward to \<open>db-01:5432\<close> from \<open>127.0.0.1:50000\<close>, and of one to
  \<open>evil.example.com:22\<close>.
\<close>

definition data_db :: bytes where
  "data_db = [CHR 0x00, CHR 0x00, CHR 0x00, CHR 0x05] @ ''db-01'' @ [CHR 0x00, CHR 0x00, CHR 0x15, CHR 0x38] @
     [CHR 0x00, CHR 0x00, CHR 0x00, CHR 0x09] @ ''127.0.0.1'' @ [CHR 0x00, CHR 0x00, CHR 0xC3, CHR 0x50]"

definition data_evil :: bytes where
  "data_evil = [CHR 0x00, CHR 0x00, CHR 0x00, CHR 0x10] @ ''evil.example.com'' @ [CHR 0x00, CHR 0x00, CHR 0x00, CHR 0x16] @
     [CHR 0x00, CHR 0x00, CHR 0x00, CHR 0x09] @ ''127.0.0.1'' @ [CHR 0x00, CHR 0x00, CHR 0xC3, CHR 0x50]"

definition channel_db :: NewChannel where
  "channel_db = \<lparr>ChannelType = ''direct-tcpip'', ExtraData = data_db\<rparr>"

definition channel_evil :: NewChannel where
  "channel_evil = \<lparr>ChannelType = ''direct-tcpip'', ExtraData = data_evil\<rparr>"

text \<open>
  Further runs: a second forward channel of the session of \<open>alice\<close>, whose agent
  channel gets the number 2; an agent that holds only the key of \<open>bob\<close>; an agent that
  refuses the added key; and a forward request cut off after the host, which does not
  decode.
\<close>

definition data_short :: bytes where
  "data_short = [CHR 0x00, CHR 0x00, CHR 0x00, CHR 0x05] @ ''db-01'' @ [CHR 0x00, CHR 0x00]"

definition channel_short :: NewChannel where
  "channel_short = \<lparr>ChannelType = ''direct-tcpip'', ExtraData = data_short\<rparr>"

definition io2 :: io where
  "io2 = io1\<lparr>OpenChannel := Inr 2, Dial := Inr 8, Accept := Inr 4\<rparr>"

definition io_other_key :: io where
  "io_other_key = io1\<lparr>Signers := Inr [signer2]\<rparr>"

definition io_add_fails :: io where
  "io_add_fails = io1\<lparr>Agent_Add := Some ''agent refused operation''\<rparr>"

definition added_key1 :: AddedKey where
  "added_key1 = \<lparr>PrivateKey = ''ek-private'',
     Certificate = \<lparr>CertKey = Wire ''EK'', KeyId = ''uuid-1'', ValidPrincipals = [''alice''],
       CriticalOptions = []\<rparr>,
     LifetimeSecs = 10, Comment = ''temporary ssh certificate (db-01)''\<rparr>"

definition alice_after_first :: SSHSession where
  "alice_after_first = \<lparr>UUID = ''uuid-1'', Account = Some 0,
     Conn = \<lparr>User = ''alice'', RemoteAddr = ''10.0.0.7:50022''\<rparr>,
     Agent = Some 1, Proxies = [7], verified = True\<rparr>"

section \<open>The reload of the account store\<close>

lemma ids_of_Nil: "ids_of P [] = []"
  by (simp add: ids_of_def)

lemma ids_of_Inl: "P raw = Inl err \<Longrightarrow> ids_of P (raw # rest) = ids_of P rest"
  by (simp add: ids_of_def)

lemma ids_of_Inr: "P raw = Inr (key, comment, options) \<Longrightarrow> ids_of P (raw # rest) = Marshal key # ids_of P rest"
  by (simp add: ids_of_def)

lemma reload_keys_Some:
  "reload_keys P p raws ks = Some ks' \<Longrightarrow>
     distinct (ids_of P raws) \<and> set (ids_of P raws) \<inter> dom ks = {} \<and> dom ks' = dom ks \<union> set (ids_of P raws)"
proof (induction raws arbitrary: ks)
  case Nil
  then show ?case by (simp add: ids_of_Nil)
next
  case (Cons raw rest)
  show ?case
  proof (cases "P raw")
    case (Inl err)
    with Cons.prems have "reload_keys P p rest ks = Some ks'"
      by (simp add: NewAccountKey_def)
    from Cons.IH [OF this] show ?thesis by (simp add: ids_of_Inl [where P = P, OF Inl])
  next
    case (Inr t)
    obtain key comment options where t: "t = (key, comment, options)" by (cases t)
    define ak where "ak = \<lparr>AccountKey.Account = p, Key = key, AccountKey.Comment = comment, Options = options\<rparr>"
    from Inr t have new: "NewAccountKey P p raw = Inr ak" and id: "ID ak = Marshal key"
      by (simp_all add: NewAccountKey_def ID_def ak_def)
    from Cons.prems new id have free: "ks (Marshal key) = None"
      by (simp split: option.splits)
    from Cons.prems new id free have rest: "reload_keys P p rest (ks(Marshal key \<mapsto> ak)) = Some ks'"
      by simp
    have d: "dom (ks(Marshal key \<mapsto> ak)) = insert (Marshal key) (dom ks)" by simp
    from Cons.IH [OF rest] have
      ih: "distinct (ids_of P rest)" "set (ids_of P rest) \<inter> insert (Marshal key) (dom ks) = {}"
          "dom ks' = insert (Marshal key) (dom ks) \<union> set (ids_of P rest)"
      unfolding d by blast+
    from Inr t have eq: "ids_of P (raw # rest) = Marshal key # ids_of P rest"
      by (simp add: ids_of_Inr)
    from free have "Marshal key \<notin> dom ks" by (simp add: domIff)
    with ih show ?thesis unfolding eq by auto
  qed
qed

lemma reload_loop_heap:
  "reload_loop P a raws h accs ks = (h', r) \<Longrightarrow> length h' = length h \<and> (\<forall>i. i \<noteq> a \<longrightarrow> h' ! i = h ! i)"
proof (induction raws arbitrary: h accs ks)
  case Nil
  then show ?case by simp
next
  case (Cons raw rest)
  show ?case
  proof (cases "accs (Username (h[a := raw] ! a))")
    case (Some other)
    with Cons.prems show ?thesis by (auto simp: Let_def)
  next
    case None
    show ?thesis
    proof (cases "reload_keys P (Some a) (SSHKeysRaw (h[a := raw] ! a)) ks")
      case N: None
      with None Cons.prems show ?thesis by (auto simp: Let_def)
    next
      case (Some ks1)
      with None Cons.prems have
        "reload_loop P a rest (h[a := raw]) (accs(Username (h[a := raw] ! a) \<mapsto> Some a)) ks1 = (h', r)"
        by (simp add: Let_def)
      from Cons.IH [OF this] show ?thesis by simp
    qed
  qed
qed

lemma reload_loop_Some:
  "reload_loop P a raws h accs ks = (h', Some (accs', ks')) \<Longrightarrow> a < length h \<Longrightarrow>
     distinct (map Username raws) \<and> set (map Username raws) \<inter> dom accs = {} \<and>
     distinct (concat (map (key_ids P) raws)) \<and> set (concat (map (key_ids P) raws)) \<inter> dom ks = {}"
proof (induction raws arbitrary: h accs ks)
  case Nil
  then show ?case by simp
next
  case (Cons raw rest)
  from Cons.prems(2) have at: "h[a := raw] ! a = raw" by simp
  from Cons.prems(1) at have free: "accs (Username raw) = None"
    by (simp add: Let_def split: option.splits)
  from Cons.prems(1) at free obtain ks1 where
    ks1: "reload_keys P (Some a) (SSHKeysRaw raw) ks = Some ks1" and
    rest: "reload_loop P a rest (h[a := raw]) (accs(Username raw \<mapsto> Some a)) ks1 = (h', Some (accs', ks'))"
    by (auto simp: Let_def split: option.splits)
  from reload_keys_Some [OF ks1] have
    k: "distinct (key_ids P raw)" "set (key_ids P raw) \<inter> dom ks = {}" "dom ks1 = dom ks \<union> set (key_ids P raw)"
    by (simp_all add: key_ids_def)
  from Cons.prems(2) have "a < length (h[a := raw])" by simp
  note ih = Cons.IH [OF rest this]
  have d: "dom (accs(Username raw \<mapsto> Some a)) = insert (Username raw) (dom accs)" by simp
  from ih have
    r: "distinct (map Username rest)" "set (map Username rest) \<inter> insert (Username raw) (dom accs) = {}"
       "distinct (concat (map (key_ids P) rest))" "set (concat (map (key_ids P) rest)) \<inter> dom ks1 = {}"
    unfolding d by blast+
  from free have nd: "Username raw \<notin> dom accs" by (simp add: domIff)
  from r(1,2) nd have u: "distinct (map Username (raw # rest))" "set (map Username (raw # rest)) \<inter> dom accs = {}"
    by auto
  from r(3,4) k have v: "distinct (concat (map (key_ids P) (raw # rest)))"
     "set (concat (map (key_ids P) (raw # rest))) \<inter> dom ks = {}"
    by auto
  from u v show ?case by blast
qed


text \<open>
  C5. A reload of an accounts file with a duplicate username, or with two keys of the
  same wire marshalling, aborts: the daemon state, and with it both maps of the store,
  is the one before the call, and every account the old store points to is unchanged.
\<close>

theorem reload_abort_keeps_store:
  assumes "LoadAccounts (Accounts (Config s)) = Inr raws"
    and "\<not> distinct (map Username raws) \<or> \<not> distinct (concat (map (key_ids P) raws))"
  shows "snd (reloadAccounts P LoadAccounts (h, s)) = s \<and>
         (\<forall>p. deref h p \<noteq> None \<longrightarrow> deref (fst (reloadAccounts P LoadAccounts (h, s))) p = deref h p)"
proof -
  obtain h' r where run: "reload_loop P (length h) raws (h @ [zero_Account]) Map.empty Map.empty = (h', r)"
    by (cases "reload_loop P (length h) raws (h @ [zero_Account]) Map.empty Map.empty")
  have "r = None"
  proof (cases r)
    case (Some m)
    obtain accs ks where "m = (accs, ks)" by (cases m)
    with run Some reload_loop_Some [of P "length h" raws "h @ [zero_Account]" Map.empty Map.empty h' accs ks]
    have "distinct (map Username raws) \<and> distinct (concat (map (key_ids P) raws))" by simp
    with assms(2) show ?thesis by blast
  qed simp
  with run assms(1) have res: "reloadAccounts P LoadAccounts (h, s) = (h', s)"
    by (simp add: reloadAccounts_def)
  from reload_loop_heap [OF run] have len: "length h' = Suc (length h)"
    and same: "\<forall>i. i \<noteq> length h \<longrightarrow> h' ! i = (h @ [zero_Account]) ! i" by simp_all
  have "deref h' p = deref h p" if "deref h p \<noteq> None" for p
  proof -
    from that obtain a where p: "p = Some a" and a: "a < length h"
      by (auto simp: deref_def split: option.splits if_splits)
    from a same have "h' ! a = h ! a" by (simp add: nth_append)
    with p a len show ?thesis by (simp add: deref_def)
  qed
  with res show ?thesis by simp
qed

theorem reload_abort_keeps_store_witness:
  "\<not> distinct (map Username [alice, bob\<lparr>Username := ''alice''\<rparr>]) \<and>
   snd (reloadAccounts parse_line (\<lambda>path. Inr [alice, bob\<lparr>Username := ''alice''\<rparr>]) (heap1, state1)) = state1 \<and>
   \<not> distinct (concat (map (key_ids parse_line) [alice, bob\<lparr>SSHKeysRaw := [''K2'', ''K1'']\<rparr>])) \<and>
   snd (reloadAccounts parse_line (\<lambda>path. Inr [alice, bob\<lparr>SSHKeysRaw := [''K2'', ''K1'']\<rparr>]) (heap1, state1)) = state1 \<and>
   deref heap1 (Some 0) \<noteq> None \<and>
   deref (fst (reloadAccounts parse_line (\<lambda>path. Inr [alice, bob\<lparr>SSHKeysRaw := [''K2'', ''K1'']\<rparr>]) (heap1, state1)))
     (Some 0) = deref heap1 (Some 0)"
proof -
  have names: "\<not> distinct (map Username [alice, bob\<lparr>Username := ''alice''\<rparr>])"
    by (simp add: alice_def)
  have ids: "\<not> distinct (concat (map (key_ids parse_line) [alice, bob\<lparr>SSHKeysRaw := [''K2'', ''K1'']\<rparr>]))"
    by (simp add: key_ids_def ids_of_def parse_line_def alice_def)
  have old: "deref heap1 (Some 0) \<noteq> None"
    by (simp add: deref_def heap1_def)
  note a = reload_abort_keeps_store [where s = state1 and h = heap1 and P = parse_line
      and LoadAccounts = "\<lambda>path. Inr [alice, bob\<lparr>Username := ''alice''\<rparr>]"
      and raws = "[alice, bob\<lparr>Username := ''alice''\<rparr>]"]
  note b = reload_abort_keeps_store [where s = state1 and h = heap1 and P = parse_line
      and LoadAccounts = "\<lambda>path. Inr [alice, bob\<lparr>SSHKeysRaw := [''K2'', ''K1'']\<rparr>]"
      and raws = "[alice, bob\<lparr>SSHKeysRaw := [''K2'', ''K1'']\<rparr>]"]
  from a names have 1:
    "snd (reloadAccounts parse_line (\<lambda>path. Inr [alice, bob\<lparr>Username := ''alice''\<rparr>]) (heap1, state1)) = state1"
    by blast
  from b ids have 2:
    "snd (reloadAccounts parse_line (\<lambda>path. Inr [alice, bob\<lparr>SSHKeysRaw := [''K2'', ''K1'']\<rparr>]) (heap1, state1)) = state1"
    and 3: "\<forall>p. deref heap1 p \<noteq> None \<longrightarrow>
      deref (fst (reloadAccounts parse_line (\<lambda>path. Inr [alice, bob\<lparr>SSHKeysRaw := [''K2'', ''K1'']\<rparr>]) (heap1, state1))) p =
      deref heap1 p"
    by blast+
  from 3 old have 4:
    "deref (fst (reloadAccounts parse_line (\<lambda>path. Inr [alice, bob\<lparr>SSHKeysRaw := [''K2'', ''K1'']\<rparr>]) (heap1, state1)))
       (Some 0) = deref heap1 (Some 0)"
    by blast
  from names ids old 1 2 4 show ?thesis by blast
qed

section \<open>The public-key callback\<close>

text \<open>
  The callback by itself: it accepts exactly when the key is in the key index and the
  account its \<open>AccountKey\<close> points to carries the username of the handshake.
\<close>

lemma PublicKeyCallback_accepts:
  "PublicKeyCallback h s user key = Returns None \<longleftrightarrow>
     (\<exists>accountKey account. keys s (Marshal key) = Some accountKey \<and>
        deref h (AccountKey.Account accountKey) = Some account \<and> Username account = user)"
  by (auto simp: PublicKeyCallback_def split: option.splits)

text \<open>
  The store after a reload that ran to its end: every \<open>AccountKey\<close> and every entry of
  \<open>accounts\<close> points to the loop variable, and the loop variable holds the last account
  of the file. So the callback accepts a known key exactly under the username of the
  last account, whichever account lists the key.
\<close>

lemma reload_keys_Account:
  "reload_keys P p raws ks = Some ks' \<Longrightarrow> ks' k = Some ak \<Longrightarrow>
     ks k = Some ak \<or> AccountKey.Account ak = p"
proof (induction raws arbitrary: ks)
  case Nil
  then show ?case by simp
next
  case (Cons raw rest)
  show ?case
  proof (cases "NewAccountKey P p raw")
    case (Inl err)
    with Cons.prems have "reload_keys P p rest ks = Some ks'" by simp
    from Cons.IH [OF this Cons.prems(2)] show ?thesis .
  next
    case (Inr key)
    then have p: "AccountKey.Account key = p"
      by (auto simp: NewAccountKey_def split: sum.splits prod.splits)
    from Cons.prems(1) Inr have free: "ks (ID key) = None" by (simp split: option.splits)
    with Cons.prems(1) Inr have "reload_keys P p rest (ks(ID key \<mapsto> key)) = Some ks'" by simp
    from Cons.IH [OF this Cons.prems(2)] p show ?thesis
      by (cases "k = ID key") auto
  qed
qed

lemma reload_loop_alias:
  "reload_loop P a raws h accs ks = (h', Some (accs', ks')) \<Longrightarrow> a < length h \<Longrightarrow>
     (ks' k = Some ak \<longrightarrow> ks k = Some ak \<or> AccountKey.Account ak = Some a) \<and>
     (accs' u = Some p \<longrightarrow> accs u = Some p \<or> p = Some a) \<and>
     h' ! a = (if raws = [] then h ! a else last raws)"
proof (induction raws arbitrary: h accs ks)
  case Nil
  then show ?case by simp
next
  case (Cons raw rest)
  from Cons.prems(2) have at: "h[a := raw] ! a = raw" by simp
  from Cons.prems(1) at have free: "accs (Username raw) = None"
    by (simp add: Let_def split: option.splits)
  from Cons.prems(1) at free obtain ks1 where
    ks1: "reload_keys P (Some a) (SSHKeysRaw raw) ks = Some ks1" and
    rest: "reload_loop P a rest (h[a := raw]) (accs(Username raw \<mapsto> Some a)) ks1 = (h', Some (accs', ks'))"
    by (auto simp: Let_def split: option.splits)
  from Cons.prems(2) have len: "a < length (h[a := raw])" by simp
  note ih = Cons.IH [OF rest len]
  from ih have 1: "ks' k = Some ak \<longrightarrow> ks1 k = Some ak \<or> AccountKey.Account ak = Some a" by blast
  from ih have 2: "accs' u = Some p \<longrightarrow> (accs(Username raw \<mapsto> Some a)) u = Some p \<or> p = Some a" by blast
  from ih at have 3: "h' ! a = (if rest = [] then raw else last rest)" by simp
  from 1 reload_keys_Account [OF ks1] have a1: "ks' k = Some ak \<longrightarrow> ks k = Some ak \<or> AccountKey.Account ak = Some a"
    by blast
  from 2 have a2: "accs' u = Some p \<longrightarrow> accs u = Some p \<or> p = Some a"
    by (cases "u = Username raw") auto
  from 3 have a3: "h' ! a = (if raw # rest = [] then h ! a else last (raw # rest))" by simp
  from a1 a2 a3 show ?case by (intro conjI)
qed

lemma callback_after_reload:
  assumes "LoadAccounts (Accounts (Config s)) = Inr raws"
    and "reload_loop P (length h) raws (h @ [zero_Account]) Map.empty Map.empty = (h', Some (accs, ks))"
  shows "reloadAccounts P LoadAccounts (h, s) = (h', s\<lparr>accounts := accs, keys := ks\<rparr>) \<and>
    (PublicKeyCallback h' (s\<lparr>accounts := accs, keys := ks\<rparr>) user key = Returns None \<longleftrightarrow>
       ks (Marshal key) \<noteq> None \<and> user = Username (last raws))"
proof -
  from assms have r: "reloadAccounts P LoadAccounts (h, s) = (h', s\<lparr>accounts := accs, keys := ks\<rparr>)"
    by (simp add: reloadAccounts_def)
  have len: "length h < length (h @ [zero_Account])" by simp
  from reload_loop_heap [OF assms(2)] have l: "length h' = Suc (length h)" by simp
  have "PublicKeyCallback h' (s\<lparr>accounts := accs, keys := ks\<rparr>) user key = Returns None \<longleftrightarrow>
       ks (Marshal key) \<noteq> None \<and> user = Username (last raws)"
  proof (cases "ks (Marshal key)")
    case None
    then show ?thesis by (simp add: PublicKeyCallback_def)
  next
    case (Some ak)
    from reload_loop_alias [OF assms(2) len, of "Marshal key" ak] Some
    have a: "AccountKey.Account ak = Some (length h)" by simp
    have ne: "raws \<noteq> []"
    proof
      assume "raws = []"
      with assms(2) have "ks = Map.empty" by simp
      with Some show False by simp
    qed
    from reload_loop_alias [OF assms(2) len] ne have "h' ! length h = last raws" by simp
    with a l have "deref h' (AccountKey.Account ak) = Some (last raws)" by (simp add: deref_def)
    with Some show ?thesis by (auto simp: PublicKeyCallback_def)
  qed
  with r show ?thesis by simp
qed

text \<open>
  C3, on the store that \<open>reloadAccounts\<close> builds. The accounts file lists \<open>alice\<close> with
  the key \<open>K1\<close> and then \<open>bob\<close> with the key \<open>K2\<close>. After the reload both maps point to
  the one loop variable, which holds the last account: a handshake that offers
  alice's key \<open>K1\<close> under the username \<open>bob\<close> is accepted, and the same key under its
  owner's username \<open>alice\<close> is refused.
\<close>

theorem callback_after_reload_of_two_accounts:
  "(case reloadAccounts parse_line (\<lambda>path. Inr [alice, bob]) ([], state0) of
      (h, s) \<Rightarrow>
        PublicKeyCallback h s ''bob'' (Wire ''K1'') = Returns None \<and>
        PublicKeyCallback h s ''alice'' (Wire ''K1'') = Returns (Some badKeyError) \<and>
        map_option AccountKey.Account (keys s ''K1'') = Some (Some 0) \<and>
        map_option AccountKey.Account (keys s ''K2'') = Some (Some 0) \<and>
        accounts s ''alice'' = Some (Some 0) \<and> accounts s ''bob'' = Some (Some 0) \<and>
        h = [bob])"
  by (simp add: reloadAccounts_def alice_def bob_def parse_line_def state0_def zero_Account_def
      NewAccountKey_def ID_def PublicKeyCallback_def deref_def Let_def)

section \<open>The verification of the forwarded agent\<close>

lemma verify_signers_skip:
  "\<not> known_for st s signer \<Longrightarrow> verify_signers L st io s (signer # rest) = verify_signers L st io s rest"
  by (simp add: known_for_def split: option.splits)

lemma verify_signers_hit:
  "keys st (Marshal (PublicKey signer)) = Some accountKey \<Longrightarrow> AccountKey.Account accountKey = Account s \<Longrightarrow>
   fst (verify_signers L st io s (signer # rest)) =
     (case rand_Read io of Inl err \<Rightarrow> Loop_Return
      | Inr token \<Rightarrow> (case Sign signer token of Inl err \<Rightarrow> Loop_Return
          | Inr sig \<Rightarrow> (case Verify L (Key accountKey) token sig of Some err \<Rightarrow> Loop_Return | None \<Rightarrow> Loop_Break)))"
  by (simp split: sum.splits option.splits)

lemma verify_signers_first:
  "fst (verify_signers L st io s signers) =
     (case find (known_for st s) signers of
        None \<Rightarrow> Loop_End
      | Some signer \<Rightarrow>
          (case keys st (Marshal (PublicKey signer)) of
             None \<Rightarrow> Loop_End
           | Some accountKey \<Rightarrow>
               (case rand_Read io of Inl err \<Rightarrow> Loop_Return
                | Inr token \<Rightarrow> (case Sign signer token of Inl err \<Rightarrow> Loop_Return
                    | Inr sig \<Rightarrow> (case Verify L (Key accountKey) token sig of
                                    Some err \<Rightarrow> Loop_Return | None \<Rightarrow> Loop_Break)))))"
proof (induction signers)
  case Nil
  show ?case by simp
next
  case (Cons signer rest)
  show ?case
  proof (cases "known_for st s signer")
    case True
    then obtain accountKey where k: "keys st (Marshal (PublicKey signer)) = Some accountKey"
      and a: "AccountKey.Account accountKey = Account s"
      by (auto simp: known_for_def split: option.splits)
    from True have f: "find (known_for st s) (signer # rest) = Some signer" by simp
    show ?thesis unfolding f option.case k verify_signers_hit [OF k a] ..
  next
    case False
    then have f: "find (known_for st s) (signer # rest) = find (known_for st s) rest" by simp
    show ?thesis unfolding f verify_signers_skip [OF False] by (rule Cons.IH)
  qed
qed

lemma verify_signers_exit:
  "fst (verify_signers L st io s signers) = Loop_Break \<longleftrightarrow>
     (\<exists>signer accountKey token sig. find (known_for st s) signers = Some signer \<and>
        keys st (Marshal (PublicKey signer)) = Some accountKey \<and> rand_Read io = Inr token \<and>
        Sign signer token = Inr sig \<and> Verify L (Key accountKey) token sig = None)"
  unfolding verify_signers_first
  by (cases "find (known_for st s) signers") (auto split: sum.splits option.splits)

lemma verify_signers_return:
  "fst (verify_signers L st io s signers) = Loop_Return \<Longrightarrow>
     \<exists>msg tr. snd (verify_signers L st io s signers) = tr @ [Reject Prohibited msg]"
proof (induction signers)
  case Nil
  then show ?case by simp
next
  case (Cons signer rest)
  show ?case
  proof (cases "known_for st s signer")
    case False
    from Cons.prems have "fst (verify_signers L st io s rest) = Loop_Return"
      unfolding verify_signers_skip [OF False] .
    from Cons.IH [OF this] show ?thesis
      unfolding verify_signers_skip [OF False] .
  next
    case True
    then obtain accountKey where k: "keys st (Marshal (PublicKey signer)) = Some accountKey"
      and a: "AccountKey.Account accountKey = Account s"
      by (auto simp: known_for_def split: option.splits)
    show ?thesis
    proof (cases "rand_Read io")
      case (Inl err)
      with k a have "snd (verify_signers L st io s (signer # rest)) =
        [Random_Token, Log_Error ''Rejecting forward: failed to generate random token''] @
        [Reject Prohibited ''cannot generate random token'']" by simp
      then show ?thesis by blast
    next
      case (Inr token)
      show ?thesis
      proof (cases "Sign signer token")
        case (Inl err)
        with k a Inr have "snd (verify_signers L st io s (signer # rest)) =
          [Random_Token, Signer_Sign (PublicKey signer),
           Log_Error ''Rejecting forward: failed to sign random token''] @
          [Reject Prohibited ''cannot sign random token'']" by simp
        then show ?thesis by blast
      next
        case sg: (Inr sig)
        show ?thesis
        proof (cases "Verify L (Key accountKey) token sig")
          case None
          with k a Inr sg Cons.prems show ?thesis by simp
        next
          case (Some err)
          with k a Inr sg have "snd (verify_signers L st io s (signer # rest)) =
            [Random_Token, Signer_Sign (PublicKey signer),
             Log_Error ''Rejecting forward: failed to verify random token signature''] @
            [Reject Prohibited ''signature verification failed'']" by simp
          then show ?thesis by blast
        qed
      qed
    qed
  qed
qed

lemma forward_verified: "verified (fst (forward L st h io ch s agentChan)) = verified s"
  by (simp add: forward_def Let_def split: outcome.splits bool.splits prod.splits option.splits sum.splits)

lemma forward_Agent: "Agent (fst (forward L st h io ch s agentChan)) = Agent s"
  by (simp add: forward_def Let_def split: outcome.splits bool.splits prod.splits option.splits sum.splits)

lemma verification_cases:
  "verification L st io s agent =
     (if verified s then (True, s, [])
      else case Signers io of
        Inl err \<Rightarrow> (False, s, [Agent_Signers agent,
               Log_Error ''Rejecting forward: failed to get list of signers from agent'',
               Reject Prohibited ''agent will not give us a list of signers''])
      | Inr signers \<Rightarrow>
          (case fst (verify_signers L st io s signers) of
             Loop_Return \<Rightarrow> (False, s, Agent_Signers agent # snd (verify_signers L st io s signers))
           | Loop_Break \<Rightarrow> (True, s\<lparr>verified := True\<rparr>, Agent_Signers agent # snd (verify_signers L st io s signers))
           | Loop_End \<Rightarrow> (True, s, Agent_Signers agent # snd (verify_signers L st io s signers))))"
  by (simp add: verification_def split: sum.splits prod.splits loop_exit.splits)

lemma verification_verified:
  "verified (fst (snd (verification L st io s agent))) \<longleftrightarrow>
     verified s \<or> (\<exists>signers. Signers io = Inr signers \<and> fst (verify_signers L st io s signers) = Loop_Break)"
  by (auto simp: verification_cases split: sum.splits loop_exit.splits)

lemma verification_stop:
  "\<not> fst (verification L st io s agent) \<Longrightarrow>
     \<exists>msg tr. snd (snd (verification L st io s agent)) = tr @ [Reject Prohibited msg]"
proof (cases "Signers io")
  case (Inl err)
  assume "\<not> fst (verification L st io s agent)"
  with Inl have "snd (snd (verification L st io s agent)) =
     [Agent_Signers agent, Log_Error ''Rejecting forward: failed to get list of signers from agent''] @
     [Reject Prohibited ''agent will not give us a list of signers'']"
    by (simp add: verification_cases split: if_splits)
  then show ?thesis by blast
next
  case (Inr signers)
  assume stop: "\<not> fst (verification L st io s agent)"
  with Inr have ret: "fst (verify_signers L st io s signers) = Loop_Return"
    by (simp add: verification_cases split: if_splits loop_exit.splits)
  from verify_signers_return [OF ret] obtain msg tr where
    "snd (verify_signers L st io s signers) = tr @ [Reject Prohibited msg]" by blast
  with Inr stop ret have "snd (snd (verification L st io s agent)) = (Agent_Signers agent # tr) @ [Reject Prohibited msg]"
    by (simp add: verification_cases split: if_splits)
  then show ?thesis by blast
qed

lemma handleChannelForward_cases:
  "handleChannelForward L st h io ch s =
     (case OpenChannel io of
        Inl err \<Rightarrow>
          (s, [Open_Channel ''auth-agent@openssh.com'',
               Log_Error ''Rejecting forward: failed to open ssh agent'',
               Reject Prohibited ''you must have an ssh agent open and forwarded''])
      | Inr agentChan \<Rightarrow>
          (let v = verification L st io (s\<lparr>Agent := Some agentChan\<rparr>) agentChan in
           if fst v then
             (fst (forward L st h io ch (fst (snd v)) agentChan),
              Open_Channel ''auth-agent@openssh.com'' # snd (snd v) @ snd (forward L st h io ch (fst (snd v)) agentChan))
           else (fst (snd v), Open_Channel ''auth-agent@openssh.com'' # snd (snd v))))"
  by (simp add: handleChannelForward_def Let_def split: sum.splits prod.splits bool.splits)

lemma known_for_Agent: "known_for st (s\<lparr>Agent := a\<rparr>) = known_for st s"
  by (rule ext) (simp add: known_for_def split: option.splits)

lemma handleChannelForward_verified:
  "verified (fst (handleChannelForward L st h io ch s)) \<longleftrightarrow>
     verified s \<or>
     (\<exists>agentChan signers. OpenChannel io = Inr agentChan \<and> Signers io = Inr signers \<and>
        fst (verify_signers L st io (s\<lparr>Agent := Some agentChan\<rparr>) signers) = Loop_Break)"
proof (cases "OpenChannel io")
  case (Inl err)
  then show ?thesis by (simp add: handleChannelForward_cases)
next
  case (Inr agentChan)
  have "verified (fst (handleChannelForward L st h io ch s)) =
        verified (fst (snd (verification L st io (s\<lparr>Agent := Some agentChan\<rparr>) agentChan)))"
    by (simp add: handleChannelForward_cases Inr Let_def forward_verified)
  then show ?thesis using Inr by (simp add: verification_verified)
qed

lemma handleChannel_mono: "verified s \<Longrightarrow> verified (fst (handleChannel L st h io ch s))"
  by (simp add: handleChannel_def handleChannelForward_verified)

lemma fst_handle_all_Cons:
  "fst (handle_all L st h ((io, ch) # rest) s) = fst (handle_all L st h rest (fst (handleChannel L st h io ch s)))"
  by (simp split: prod.splits)

lemma handle_all_mono: "verified s \<Longrightarrow> verified (fst (handle_all L st h chans s))"
proof (induction chans arbitrary: s)
  case Nil
  then show ?case by simp
next
  case (Cons c rest)
  obtain io ch where c: "c = (io, ch)" by (cases c)
  from Cons.prems have "verified (fst (handleChannel L st h io ch s))" by (rule handleChannel_mono)
  from Cons.IH [OF this] show ?case unfolding c fst_handle_all_Cons .
qed


text \<open>
  C1. The \<open>verified\<close> flag of a session is monotonic: whatever channels are handled on a
  verified session, it stays verified. A forward channel turns the flag from false to
  true only when the agent channel was opened, the agent listed its signers, and the
  first signer whose key is known and belongs to the account of the session signed
  the random token with a signature that verifies under the stored key. When the
  listing of the signers, the generation of the token, the signing or the
  verification fails, the flag stays false and the handler ends by rejecting the
  channel with \<open>Prohibited\<close>.
\<close>

theorem verified_flag:
  "(verified s \<longrightarrow> verified (fst (handle_all L st h chans s))) \<and>
   (\<not> verified s \<and> verified (fst (handleChannelForward L st h io ch s)) \<longrightarrow>
      (\<exists>agentChan signers signer accountKey token sig.
         OpenChannel io = Inr agentChan \<and> Signers io = Inr signers \<and>
         find (known_for st s) signers = Some signer \<and>
         keys st (Marshal (PublicKey signer)) = Some accountKey \<and>
         rand_Read io = Inr token \<and> Sign signer token = Inr sig \<and>
         Verify L (Key accountKey) token sig = None)) \<and>
   (\<not> verified s \<and> OpenChannel io = Inr agentChan \<and>
      (Signers io = Inl err \<or>
       Signers io = Inr signers \<and> find (known_for st s) signers = Some signer \<and>
       keys st (Marshal (PublicKey signer)) = Some accountKey \<and>
       (rand_Read io = Inl err \<or>
        rand_Read io = Inr token \<and>
        (Sign signer token = Inl err \<or>
         Sign signer token = Inr sig \<and> Verify L (Key accountKey) token sig = Some err))) \<longrightarrow>
      \<not> verified (fst (handleChannelForward L st h io ch s)) \<and>
      (\<exists>msg. last (snd (handleChannelForward L st h io ch s)) = Reject Prohibited msg))"
proof -
  have mono: "verified s \<longrightarrow> verified (fst (handle_all L st h chans s))"
    by (simp add: handle_all_mono)
  have only: "\<not> verified s \<and> verified (fst (handleChannelForward L st h io ch s)) \<longrightarrow>
      (\<exists>agentChan signers signer accountKey token sig.
         OpenChannel io = Inr agentChan \<and> Signers io = Inr signers \<and>
         find (known_for st s) signers = Some signer \<and>
         keys st (Marshal (PublicKey signer)) = Some accountKey \<and>
         rand_Read io = Inr token \<and> Sign signer token = Inr sig \<and>
         Verify L (Key accountKey) token sig = None)"
  proof (intro impI)
    assume "\<not> verified s \<and> verified (fst (handleChannelForward L st h io ch s))"
    then obtain agentChan signers where
      "OpenChannel io = Inr agentChan" "Signers io = Inr signers"
      "fst (verify_signers L st io (s\<lparr>Agent := Some agentChan\<rparr>) signers) = Loop_Break"
      by (auto simp: handleChannelForward_verified)
    then show "\<exists>agentChan signers signer accountKey token sig.
         OpenChannel io = Inr agentChan \<and> Signers io = Inr signers \<and>
         find (known_for st s) signers = Some signer \<and>
         keys st (Marshal (PublicKey signer)) = Some accountKey \<and>
         rand_Read io = Inr token \<and> Sign signer token = Inr sig \<and>
         Verify L (Key accountKey) token sig = None"
      by (simp add: verify_signers_exit known_for_Agent)
  qed
  have fail: "\<not> verified s \<and> OpenChannel io = Inr agentChan \<and>
      (Signers io = Inl err \<or>
       Signers io = Inr signers \<and> find (known_for st s) signers = Some signer \<and>
       keys st (Marshal (PublicKey signer)) = Some accountKey \<and>
       (rand_Read io = Inl err \<or>
        rand_Read io = Inr token \<and>
        (Sign signer token = Inl err \<or>
         Sign signer token = Inr sig \<and> Verify L (Key accountKey) token sig = Some err))) \<longrightarrow>
      \<not> verified (fst (handleChannelForward L st h io ch s)) \<and>
      (\<exists>msg. last (snd (handleChannelForward L st h io ch s)) = Reject Prohibited msg)"
  proof (rule impI)
    assume a: "\<not> verified s \<and> OpenChannel io = Inr agentChan \<and>
      (Signers io = Inl err \<or>
       Signers io = Inr signers \<and> find (known_for st s) signers = Some signer \<and>
       keys st (Marshal (PublicKey signer)) = Some accountKey \<and>
       (rand_Read io = Inl err \<or>
        rand_Read io = Inr token \<and>
        (Sign signer token = Inl err \<or>
         Sign signer token = Inr sig \<and> Verify L (Key accountKey) token sig = Some err)))"
    let ?s = "s\<lparr>Agent := Some agentChan\<rparr>"
    have stop: "\<not> fst (verification L st io ?s agentChan)"
    proof (cases "Signers io")
      case (Inl e)
      with a show ?thesis by (simp add: verification_cases)
    next
      case (Inr sgs)
      with a have sgs: "sgs = signers" and f: "find (known_for st ?s) signers = Some signer"
        and k: "keys st (Marshal (PublicKey signer)) = Some accountKey"
        by (auto simp: known_for_Agent)
      from a Inr f k have "fst (verify_signers L st io ?s signers) = Loop_Return"
        unfolding verify_signers_first by auto
      with a Inr sgs show ?thesis by (simp add: verification_cases)
    qed
    from a stop have nv: "\<not> verified (fst (snd (verification L st io ?s agentChan)))"
      by (auto simp: verification_cases split: sum.splits loop_exit.splits)
    from verification_stop [OF stop] obtain msg tr where
      tr: "snd (snd (verification L st io ?s agentChan)) = tr @ [Reject Prohibited msg]" by blast
    from a stop nv tr
    show "\<not> verified (fst (handleChannelForward L st h io ch s)) \<and>
        (\<exists>msg. last (snd (handleChannelForward L st h io ch s)) = Reject Prohibited msg)"
      by (simp add: handleChannelForward_cases Let_def)
  qed
  show ?thesis by (intro conjI mono only fail)
qed

lemmas handler_defs =
  handleChannelForward_def verification_def forward_def addTempAuth_def canConnectTo_def
  notifyConnection_def Generate_def deref_def handleChannel_def Let_def decimal.simps

lemmas input_defs =
  lib0_def state1_def heap1_def io1_def channel_db_def channel_evil_def session_alice_def
  session_bob_def NewSSHSession_def config0_def alice_def bob_def zero_Account_def
  signer1_def signer2_def forger1_def

lemma Unmarshal_data_db:
  "ssh_Unmarshal data_db zero_msg =
     (\<lparr>RAddr = ''db-01'', RPort = 5432, LAddr = ''127.0.0.1'', LPort = 50000\<rparr>, None)"
  by (simp add: ssh_Unmarshal_def data_db_def parseString_def parseUint32_def be_uint32_def
      zero_msg_def Let_def)

lemma Unmarshal_data_evil:
  "ssh_Unmarshal data_evil zero_msg =
     (\<lparr>RAddr = ''evil.example.com'', RPort = 22, LAddr = ''127.0.0.1'', LPort = 50000\<rparr>, None)"
  by (simp add: ssh_Unmarshal_def data_evil_def parseString_def parseUint32_def be_uint32_def
      zero_msg_def Let_def)

lemma alice_db:
  "handleChannelForward lib0 state1 heap1 io1 channel_db session_alice =
    (\<lparr>UUID = ''uuid-1'', Account = Some 0,
     Conn = \<lparr>User = ''alice'', RemoteAddr = ''10.0.0.7:50022''\<rparr>,
     Agent = Some 1, Proxies = [7], verified = True\<rparr>,
  [Open_Channel ''auth-agent@openssh.com'', Agent_Signers 1, Random_Token,
   Signer_Sign (Wire ''K1''),
   Log_Info ''Public key verification completed'',
   CA_Generate ''uuid-1'' ''alice'' [],
   Agent_Add_Key 1
    \<lparr>PrivateKey = ''ek-private'',
       Certificate =
         \<lparr>CertKey = Wire ''EK'', KeyId = ''uuid-1'',
            ValidPrincipals = [''alice''], CriticalOptions = []\<rparr>,
       LifetimeSecs = 10, Comment = ''temporary ssh certificate (db-01)''\<rparr>,
   Notify_Session_Start ''discord'' ''alice'' ''uuid-1'' ''db-01''
    ''10.0.0.7:50022'',
   Net_Dial ''tcp'' ''db-01:5432'', Accept_Channel,
   Start_Proxy 1 (Some 3) 7])"
  by (simp add: handler_defs input_defs Unmarshal_data_db)

theorem verified_flag_witness:
  "verified (session_alice\<lparr>verified := True\<rparr>) \<and>
   verified (fst (handle_all lib0 state1 heap1
     [(io1\<lparr>Signers := Inl ''agent refused operation''\<rparr>, channel_evil), (io1\<lparr>OpenChannel := Inl ''open failed''\<rparr>, channel_db)]
     (session_alice\<lparr>verified := True\<rparr>))) \<and>
   \<not> verified session_alice \<and>
   verified (fst (handleChannelForward lib0 state1 heap1 io1 channel_db session_alice)) \<and>
   (\<exists>agentChan signers signer accountKey token sig.
      OpenChannel io1 = Inr agentChan \<and> Signers io1 = Inr signers \<and>
      find (known_for state1 session_alice) signers = Some signer \<and>
      keys state1 (Marshal (PublicKey signer)) = Some accountKey \<and>
      rand_Read io1 = Inr token \<and> Sign signer token = Inr sig \<and>
      Verify lib0 (Key accountKey) token sig = None) \<and>
   OpenChannel (io1\<lparr>Signers := Inr [signer2, forger1]\<rparr>) = Inr 1 \<and>
   Signers (io1\<lparr>Signers := Inr [signer2, forger1]\<rparr>) = Inr [signer2, forger1] \<and>
   find (known_for state1 session_alice) [signer2, forger1] = Some forger1 \<and>
   Verify lib0 (Wire ''K1'') (replicate 128 (CHR ''r'')) (''K9 signed '' @ replicate 128 (CHR ''r'')) =
     Some ''ssh: signature did not verify'' \<and>
   \<not> verified (fst (handleChannelForward lib0 state1 heap1 (io1\<lparr>Signers := Inr [signer2, forger1]\<rparr>) channel_db session_alice)) \<and>
   (\<exists>msg. last (snd (handleChannelForward lib0 state1 heap1 (io1\<lparr>Signers := Inr [signer2, forger1]\<rparr>) channel_db session_alice)) =
      Reject Prohibited msg)"
proof -
  let ?io = "io1\<lparr>Signers := Inr [signer2, forger1]\<rparr>"
  let ?ak = "\<lparr>AccountKey.Account = Some 0, Key = Wire ''K1'', AccountKey.Comment = [], Options = []\<rparr>"
  let ?tok = "replicate 128 (CHR ''r'')"
  have v: "verified (session_alice\<lparr>verified := True\<rparr>)" by simp
  have nv: "\<not> verified session_alice" by (simp add: session_alice_def NewSSHSession_def)
  have ok: "verified (fst (handleChannelForward lib0 state1 heap1 io1 channel_db session_alice))"
    by (simp add: alice_db)
  have o: "OpenChannel ?io = Inr 1" and sg: "Signers ?io = Inr [signer2, forger1]"
    and rr: "rand_Read ?io = Inr ?tok"
    by (simp_all add: io1_def)
  have f: "find (known_for state1 session_alice) [signer2, forger1] = Some forger1"
    by (simp add: known_for_def input_defs)
  have k: "keys state1 (Marshal (PublicKey forger1)) = Some ?ak"
    by (simp add: input_defs)
  have si: "Sign forger1 ?tok = Inr (''K9 signed '' @ ?tok)"
    by (simp add: forger1_def)
  have ve: "Verify lib0 (Wire ''K1'') ?tok (''K9 signed '' @ ?tok) = Some ''ssh: signature did not verify''"
    by (simp add: lib0_def)
  from ve have ve': "Verify lib0 (Key ?ak) ?tok (''K9 signed '' @ ?tok) = Some ''ssh: signature did not verify''"
    by simp
  note mono = verified_flag [where s = "session_alice\<lparr>verified := True\<rparr>" and L = lib0 and st = state1
      and h = heap1
      and chans = "[(io1\<lparr>Signers := Inl ''agent refused operation''\<rparr>, channel_evil), (io1\<lparr>OpenChannel := Inl ''open failed''\<rparr>, channel_db)]",
      THEN conjunct1]
  note only = verified_flag [where s = session_alice and L = lib0 and st = state1 and h = heap1
      and io = io1 and ch = channel_db, THEN conjunct2, THEN conjunct1]
  note fail = verified_flag [where s = session_alice and L = lib0 and st = state1 and h = heap1
      and io = ?io and ch = channel_db and agentChan = 1 and signers = "[signer2, forger1]"
      and signer = forger1 and accountKey = ?ak and token = ?tok and sig = "''K9 signed '' @ ?tok"
      and err = "''ssh: signature did not verify''", THEN conjunct2, THEN conjunct2]
  from mono v have 1: "verified (fst (handle_all lib0 state1 heap1
     [(io1\<lparr>Signers := Inl ''agent refused operation''\<rparr>, channel_evil), (io1\<lparr>OpenChannel := Inl ''open failed''\<rparr>, channel_db)]
     (session_alice\<lparr>verified := True\<rparr>)))" by (rule mp)
  from only nv ok have 2: "\<exists>agentChan signers signer accountKey token sig.
      OpenChannel io1 = Inr agentChan \<and> Signers io1 = Inr signers \<and>
      find (known_for state1 session_alice) signers = Some signer \<and>
      keys state1 (Marshal (PublicKey signer)) = Some accountKey \<and>
      rand_Read io1 = Inr token \<and> Sign signer token = Inr sig \<and>
      Verify lib0 (Key accountKey) token sig = None" by (intro mp [OF only] conjI)
  have 3: "\<not> verified (fst (handleChannelForward lib0 state1 heap1 ?io channel_db session_alice)) \<and>
   (\<exists>msg. last (snd (handleChannelForward lib0 state1 heap1 ?io channel_db session_alice)) = Reject Prohibited msg)"
    by (rule mp [OF fail]) (intro conjI disjI2 nv o sg f k rr si ve')
  from v 1 nv ok 2 o sg f ve 3 show ?thesis by (intro conjI) simp_all
qed

lemmas more_input_defs =
  channel_short_def io2_def io_other_key_def io_add_fails_def added_key1_def
  alice_after_first_def

lemma Unmarshal_data_short:
  "ssh_Unmarshal data_short zero_msg =
     (\<lparr>RAddr = ''db-01'', RPort = 0, LAddr = [], LPort = 0\<rparr>, Some ''ssh: short read'')"
  by (simp add: ssh_Unmarshal_def data_short_def parseString_def parseUint32_def be_uint32_def
      zero_msg_def Let_def)

lemma alice_other_key:
  "handleChannelForward lib0 state1 heap1 io_other_key channel_db session_alice =
     (\<lparr>UUID = ''uuid-1'', Account = Some 0,
        Conn = \<lparr>User = ''alice'', RemoteAddr = ''10.0.0.7:50022''\<rparr>,
        Agent = Some 1, Proxies = [7], verified = False\<rparr>,
      [Open_Channel ''auth-agent@openssh.com'', Agent_Signers 1,
       CA_Generate ''uuid-1'' ''alice'' [],
       Agent_Add_Key 1 added_key1,
       Notify_Session_Start ''discord'' ''alice'' ''uuid-1'' ''db-01'' ''10.0.0.7:50022'',
       Net_Dial ''tcp'' ''db-01:5432'', Accept_Channel, Start_Proxy 1 (Some 3) 7])"
  by (simp add: handler_defs input_defs more_input_defs Unmarshal_data_db)


lemma bob_verification:
  "verification lib0 state1 io_other_key (session_bob\<lparr>Agent := Some 1\<rparr>) 1 =
     (True, session_bob\<lparr>Agent := Some 1, verified := True\<rparr>,
      [Agent_Signers 1, Random_Token, Signer_Sign (Wire ''K2''),
       Log_Info ''Public key verification completed''])"
  by (simp add: handler_defs input_defs more_input_defs)

lemma bob_evil_denied:
  "canConnectTo heap1 (session_bob\<lparr>Agent := Some 1, verified := True\<rparr>)
     (RAddr (fst (Unmarshal lib0 (ExtraData channel_evil) zero_msg))) = Returns False"
  by (simp add: handler_defs input_defs Unmarshal_data_evil)

section \<open>The stages of the forward handler\<close>

lemma verify_signers_none:
  "\<forall>signer \<in> set signers. \<not> known_for st s signer \<Longrightarrow> verify_signers L st io s signers = (Loop_End, [])"
proof (induction signers)
  case Nil
  show ?case by simp
next
  case (Cons signer rest)
  from Cons.prems have n: "\<not> known_for st s signer" and r: "\<forall>signer \<in> set rest. \<not> known_for st s signer"
    by simp_all
  show ?case unfolding verify_signers_skip [OF n] using r by (rule Cons.IH)
qed

lemma verify_signers_events:
  "list_all verification_event (snd (verify_signers L st io s signers))"
proof (induction signers)
  case Nil
  show ?case by simp
next
  case (Cons signer rest)
  show ?case
  proof (cases "known_for st s signer")
    case False
    show ?thesis unfolding verify_signers_skip [OF False] by (rule Cons.IH)
  next
    case True
    then obtain accountKey where k: "keys st (Marshal (PublicKey signer)) = Some accountKey"
      and a: "AccountKey.Account accountKey = Account s"
      by (auto simp: known_for_def split: option.splits)
    from k a show ?thesis by (simp split: sum.splits option.splits)
  qed
qed

lemma verification_events:
  "list_all verification_event (snd (snd (verification L st io s agent)))"
  using verify_signers_events [of L st io s]
  by (simp add: verification_cases split: sum.splits loop_exit.splits)

lemma verification_frame:
  "fst (snd (verification L st io s agent)) = s \<or>
   fst (snd (verification L st io s agent)) = s\<lparr>verified := True\<rparr>"
  by (simp add: verification_cases split: sum.splits loop_exit.splits)

lemma canConnectTo_policy:
  "deref h (Account s) = Some account \<Longrightarrow> canConnectTo h s host = Returns (policy_allows account host)"
  by (simp add: canConnectTo_def policy_allows_def split: option.splits)

lemma addTempAuth_events:
  "list_all (\<lambda>e. \<not> verification_event e) (snd (addTempAuth st h io s addr))"
  by (simp add: addTempAuth_def Generate_def split: option.splits sum.splits prod.splits outcome.splits)

lemma forward_deny:
  "canConnectTo h s (RAddr (fst (Unmarshal L (ExtraData ch) zero_msg))) = Returns False \<Longrightarrow>
   forward L st h io ch s agentChan =
     (s, [Log_Error ''Rejecting forward: destination does not match whitelist/blacklist checks'',
          Reject ConnectionFailed ''invalid permissions''])"
  by (simp add: forward_def Let_def)

lemma forward_allow:
  "canConnectTo h s (RAddr (fst (Unmarshal L (ExtraData ch) zero_msg))) = Returns True \<Longrightarrow>
   \<exists>tr. snd (forward L st h io ch s agentChan) =
     snd (addTempAuth st h io s (RAddr (fst (Unmarshal L (ExtraData ch) zero_msg)))) @ tr \<and>
     Reject ConnectionFailed ''invalid permissions'' \<notin> set tr"
  by (simp add: forward_def Let_def notifyConnection_def image_iff
      split: prod.splits outcome.splits option.splits sum.splits)

lemma forward_panic:
  "canConnectTo h s (RAddr (fst (Unmarshal L (ExtraData ch) zero_msg))) = Panics \<Longrightarrow>
   forward L st h io ch s agentChan = (s, [Nil_Dereference])"
  by (simp add: forward_def Let_def)

lemma verification_not_later:
  "filter issuance_or_later (snd (snd (verification L st io s agent))) = []"
proof -
  have "\<not> issuance_or_later e" if "verification_event e" for e
    using that by (cases e) simp_all
  with verification_events [of L st io s agent] show ?thesis
    by (auto simp: list_all_iff filter_empty_conv)
qed

lemma verification_Proxies: "Proxies (fst (snd (verification L st io s agent))) = Proxies s"
  using verification_frame [of L st io s agent] by auto

lemma verification_Agent: "Agent (fst (snd (verification L st io s agent))) = Agent s"
  using verification_frame [of L st io s agent] by auto

lemma verification_Account: "Account (fst (snd (verification L st io s agent))) = Account s"
  using verification_frame [of L st io s agent] by auto

lemma verification_UUID: "UUID (fst (snd (verification L st io s agent))) = UUID s"
  using verification_frame [of L st io s agent] by auto

lemma canConnectTo_Agent: "canConnectTo h (s\<lparr>Agent := a\<rparr>) addr = canConnectTo h s addr"
  by (simp add: canConnectTo_def)

lemma addTempAuth_no_Reject: "Reject reason msg \<notin> set (snd (addTempAuth st h io s addr))"
  by (simp add: addTempAuth_def Generate_def split: option.splits sum.splits prod.splits outcome.splits)




lemma handler_after_verification:
  assumes "OpenChannel io = Inr agentChan"
    and "verification L st io (s\<lparr>Agent := Some agentChan\<rparr>) agentChan = (True, s1, tr1)"
  shows "handleChannelForward L st h io ch s =
    (fst (forward L st h io ch s1 agentChan),
     Open_Channel ''auth-agent@openssh.com'' # tr1 @ snd (forward L st h io ch s1 agentChan))"
  using assms by (simp add: handleChannelForward_def split: prod.splits)

lemma addTempAuth_no_Net_Dial: "Net_Dial network address \<notin> set (snd (addTempAuth st h io s addr))"
  by (simp add: addTempAuth_def Generate_def split: option.splits sum.splits prod.splits outcome.splits)

lemma forward_invalid_permissions:
  "Reject ConnectionFailed ''invalid permissions'' \<in> set (snd (forward L st h io ch s agentChan)) \<longleftrightarrow>
     canConnectTo h s (RAddr (fst (Unmarshal L (ExtraData ch) zero_msg))) = Returns False"
proof -
  let ?host = "RAddr (fst (Unmarshal L (ExtraData ch) zero_msg))"
  let ?rej = "Reject ConnectionFailed ''invalid permissions''"
  show ?thesis
  proof (cases "canConnectTo h s ?host")
    case Panics
    show ?thesis unfolding forward_panic [OF Panics] using Panics by simp
  next
    case (Returns b)
    show ?thesis
    proof (cases b)
      case False
      with Returns have d: "canConnectTo h s ?host = Returns False" by simp
      show ?thesis unfolding forward_deny [OF d] using d by simp
    next
      case True
      with Returns have a: "canConnectTo h s ?host = Returns True" by simp
      from forward_allow [OF a] obtain tr where
        f: "snd (forward L st h io ch s agentChan) = snd (addTempAuth st h io s ?host) @ tr"
        and n: "?rej \<notin> set tr" by blast
      have "?rej \<notin> set (snd (addTempAuth st h io s ?host))" by (rule addTempAuth_no_Reject)
      with n a show ?thesis unfolding f by simp
    qed
  qed
qed

lemma forward_Net_Dial:
  "Net_Dial network address \<in> set (snd (forward L st h io ch s agentChan)) \<longleftrightarrow>
     network = ''tcp'' \<and>
     address = RAddr (fst (Unmarshal L (ExtraData ch) zero_msg)) @ '':'' @
               decimal (unat (RPort (fst (Unmarshal L (ExtraData ch) zero_msg)))) \<and>
     canConnectTo h s (RAddr (fst (Unmarshal L (ExtraData ch) zero_msg))) = Returns True \<and>
     fst (addTempAuth st h io s (RAddr (fst (Unmarshal L (ExtraData ch) zero_msg)))) = Returns None"
proof -
  let ?host = "RAddr (fst (Unmarshal L (ExtraData ch) zero_msg))"
  show ?thesis
  proof (cases "canConnectTo h s ?host")
    case Panics
    show ?thesis unfolding forward_panic [OF Panics] using Panics by simp
  next
    case (Returns b)
    show ?thesis
    proof (cases b)
      case False
      with Returns have d: "canConnectTo h s ?host = Returns False" by simp
      show ?thesis unfolding forward_deny [OF d] using d by simp
    next
      case True
      with Returns have a: "canConnectTo h s ?host = Returns True" by simp
      obtain r tr where at: "addTempAuth st h io s ?host = (r, tr)"
        by (cases "addTempAuth st h io s ?host")
      from addTempAuth_no_Net_Dial [of network address st h io s ?host] at
      have nd: "Net_Dial network address \<notin> set tr" by simp
      show ?thesis
      proof (cases r)
        case Panics
        with a at nd show ?thesis by (simp add: forward_def Let_def)
      next
        case (Returns e)
        show ?thesis
        proof (cases e)
          case (Some err)
          with Returns a at nd show ?thesis by (simp add: forward_def Let_def)
        next
          case None
          with Returns a at nd show ?thesis
            by (cases "Dial io") (auto simp: forward_def Let_def notifyConnection_def)
        qed
      qed
    qed
  qed
qed

section \<open>Issuance without verification\<close>

text \<open>
  C2. On a session that is not verified, when the agent channel opens and the agent
  lists signers none of which has a key that is known and belongs to the account of
  the session, the handler does not reject: the session stays unverified, and when the
  policy allows the destination the next effects after the listing of the signers
  are those of \<open>addTempAuth\<close>, called on that unverified session; the certificate
  authority is asked for a certificate for the session.
\<close>

theorem unverified_session_reaches_issuance:
  assumes "\<not> verified s"
    and "OpenChannel io = Inr agentChan"
    and "Signers io = Inr signers"
    and "\<forall>signer \<in> set signers. \<not> known_for st s signer"
    and "canConnectTo h s (RAddr (fst (Unmarshal L (ExtraData ch) zero_msg))) = Returns True"
  shows "\<not> verified (fst (handleChannelForward L st h io ch s)) \<and>
     (\<exists>tr. snd (handleChannelForward L st h io ch s) =
        [Open_Channel ''auth-agent@openssh.com'', Agent_Signers agentChan] @
        snd (addTempAuth st h io (s\<lparr>Agent := Some agentChan\<rparr>) (RAddr (fst (Unmarshal L (ExtraData ch) zero_msg)))) @ tr) \<and>
     (\<exists>username. CA_Generate (UUID s) username (ForceCommand (Config st))
        \<in> set (snd (handleChannelForward L st h io ch s)))"
proof -
  let ?s = "s\<lparr>Agent := Some agentChan\<rparr>"
  let ?host = "RAddr (fst (Unmarshal L (ExtraData ch) zero_msg))"
  from assms(4) have "\<forall>signer \<in> set signers. \<not> known_for st ?s signer"
    by (simp add: known_for_Agent)
  then have loop: "verify_signers L st io ?s signers = (Loop_End, [])"
    by (rule verify_signers_none)
  from assms(1,3) loop have v: "verification L st io ?s agentChan = (True, ?s, [Agent_Signers agentChan])"
    by (simp add: verification_def)
  from assms(5) have allow: "canConnectTo h ?s ?host = Returns True"
    by (simp add: canConnectTo_Agent)
  from forward_allow [OF allow] obtain tr where
    tr: "snd (forward L st h io ch ?s agentChan) = snd (addTempAuth st h io ?s ?host) @ tr"
    by blast
  from assms(2) v have res: "handleChannelForward L st h io ch s =
      (fst (forward L st h io ch ?s agentChan),
       Open_Channel ''auth-agent@openssh.com'' # Agent_Signers agentChan # snd (forward L st h io ch ?s agentChan))"
    by (simp add: handleChannelForward_cases)
  from assms(1) have 1: "\<not> verified (fst (handleChannelForward L st h io ch s))"
    unfolding res by (simp add: forward_verified)
  from tr have 2: "snd (handleChannelForward L st h io ch s) =
        [Open_Channel ''auth-agent@openssh.com'', Agent_Signers agentChan] @
        snd (addTempAuth st h io ?s ?host) @ tr"
    unfolding res by simp
  from allow obtain account where acc: "deref h (Account s) = Some account"
    by (auto simp: canConnectTo_def split: option.splits)
  define username where "username = (if ForceUser (Config st) \<noteq> [] then ForceUser (Config st) else Username account)"
  from acc have "CA_Generate (UUID s) username (ForceCommand (Config st))
      \<in> set (snd (addTempAuth st h io ?s ?host))"
    by (simp add: addTempAuth_def username_def Generate_def split: sum.splits prod.splits)
  with 2 have 3: "CA_Generate (UUID s) username (ForceCommand (Config st))
      \<in> set (snd (handleChannelForward L st h io ch s))" by simp
  show ?thesis
  proof (intro conjI)
    show "\<not> verified (fst (handleChannelForward L st h io ch s))" by (rule 1)
    show "\<exists>tr. snd (handleChannelForward L st h io ch s) =
        [Open_Channel ''auth-agent@openssh.com'', Agent_Signers agentChan] @
        snd (addTempAuth st h io ?s ?host) @ tr" using 2 by (rule exI)
    show "\<exists>username. CA_Generate (UUID s) username (ForceCommand (Config st))
        \<in> set (snd (handleChannelForward L st h io ch s))" using 3 by (rule exI)
  qed
qed

theorem unverified_session_reaches_issuance_witness:
  "\<not> verified session_alice \<and> OpenChannel io_other_key = Inr 1 \<and> Signers io_other_key = Inr [signer2] \<and>
   \<not> known_for state1 session_alice signer2 \<and>
   canConnectTo heap1 session_alice (RAddr (fst (Unmarshal lib0 (ExtraData channel_db) zero_msg))) = Returns True \<and>
   \<not> verified (fst (handleChannelForward lib0 state1 heap1 io_other_key channel_db session_alice)) \<and>
   (\<exists>tr. snd (handleChannelForward lib0 state1 heap1 io_other_key channel_db session_alice) =
      [Open_Channel ''auth-agent@openssh.com'', Agent_Signers 1] @
      snd (addTempAuth state1 heap1 io_other_key (session_alice\<lparr>Agent := Some 1\<rparr>)
             (RAddr (fst (Unmarshal lib0 (ExtraData channel_db) zero_msg)))) @ tr) \<and>
   (\<exists>username. CA_Generate (UUID session_alice) username (ForceCommand (Config state1))
      \<in> set (snd (handleChannelForward lib0 state1 heap1 io_other_key channel_db session_alice)))"
proof -
  have 1: "\<not> verified session_alice" by (simp add: session_alice_def NewSSHSession_def)
  have 2: "OpenChannel io_other_key = Inr 1" by (simp add: io_other_key_def io1_def)
  have 3: "Signers io_other_key = Inr [signer2]" by (simp add: io_other_key_def)
  have k4: "\<not> known_for state1 session_alice signer2"
    by (simp add: known_for_def input_defs)
  then have 4: "\<forall>signer \<in> set [signer2]. \<not> known_for state1 session_alice signer"
    by simp
  have 5: "canConnectTo heap1 session_alice (RAddr (fst (Unmarshal lib0 (ExtraData channel_db) zero_msg))) =
      Returns True"
    by (simp add: handler_defs input_defs Unmarshal_data_db)
  note c = unverified_session_reaches_issuance [OF 1 2 3 4 5]
  from 1 2 3 k4 5 c show ?thesis by (intro conjI) simp_all
qed

section \<open>The policy decision\<close>

text \<open>
  C4. For every account and host, \<open>canConnectTo\<close> allows if and only if the whitelist is
  absent or matches the host and the blacklist is absent or does not match it. In the
  forward handler, once the verification block lets the channel through, the channel
  is rejected with ``invalid permissions'' exactly when this decision, taken on the
  field \<open>RAddr\<close> of the decoded request, is a denial: the matcher sees the raw host, not
  the string \<open>host:port\<close>.
\<close>

theorem policy_decision:
  assumes "deref h (Account s) = Some account"
  shows "canConnectTo h s host = Returns (policy_allows account host) \<and>
     (OpenChannel io = Inr agentChan \<and> fst (verification L st io (s\<lparr>Agent := Some agentChan\<rparr>) agentChan) \<longrightarrow>
        (Reject ConnectionFailed ''invalid permissions'' \<in> set (snd (handleChannelForward L st h io ch s)) \<longleftrightarrow>
         \<not> policy_allows account (RAddr (fst (Unmarshal L (ExtraData ch) zero_msg)))))"
proof -
  let ?s = "s\<lparr>Agent := Some agentChan\<rparr>"
  let ?v = "verification L st io ?s agentChan"
  let ?host = "RAddr (fst (Unmarshal L (ExtraData ch) zero_msg))"
  let ?rej = "Reject ConnectionFailed ''invalid permissions''"
  have 1: "canConnectTo h s host = Returns (policy_allows account host)"
    using assms by (rule canConnectTo_policy)
  have 2: "?rej \<in> set (snd (handleChannelForward L st h io ch s)) \<longleftrightarrow> \<not> policy_allows account ?host"
    if o: "OpenChannel io = Inr agentChan" and go: "fst ?v"
  proof -
    from verification_frame [of L st io ?s agentChan] have "Account (fst (snd ?v)) = Account s"
      by auto
    with assms have d: "deref h (Account (fst (snd ?v))) = Some account" by simp
    have pol: "canConnectTo h (fst (snd ?v)) ?host = Returns (policy_allows account ?host)"
      using d by (rule canConnectTo_policy)
    from verification_events [of L st io ?s agentChan] have nov: "?rej \<notin> set (snd (snd ?v))"
      by (auto simp: list_all_iff)
    from o go have tr: "snd (handleChannelForward L st h io ch s) =
        Open_Channel ''auth-agent@openssh.com'' # snd (snd ?v) @ snd (forward L st h io ch (fst (snd ?v)) agentChan)"
      by (simp add: handleChannelForward_cases Let_def)
    show ?thesis
    proof (cases "policy_allows account ?host")
      case False
      with pol have "canConnectTo h (fst (snd ?v)) ?host = Returns False" by simp
      from forward_deny [OF this] False show ?thesis unfolding tr by simp
    next
      case True
      with pol have "canConnectTo h (fst (snd ?v)) ?host = Returns True" by simp
      from forward_allow [OF this] obtain tr' where
        f: "snd (forward L st h io ch (fst (snd ?v)) agentChan) =
            snd (addTempAuth st h io (fst (snd ?v)) ?host) @ tr'" and n: "?rej \<notin> set tr'"
        by blast
      have "?rej \<notin> set (snd (addTempAuth st h io (fst (snd ?v)) ?host))"
        by (rule addTempAuth_no_Reject)
      with nov n True show ?thesis unfolding tr f by simp
    qed
  qed
  show ?thesis
  proof (intro conjI impI)
    show "canConnectTo h s host = Returns (policy_allows account host)" by (rule 1)
  next
    assume "OpenChannel io = Inr agentChan \<and> fst ?v"
    then have "OpenChannel io = Inr agentChan" and "fst ?v" by simp_all
    then show "?rej \<in> set (snd (handleChannelForward L st h io ch s)) \<longleftrightarrow> \<not> policy_allows account ?host"
      by (rule 2)
  qed
qed

theorem policy_decision_witness:
  "deref heap1 (Account session_alice) = Some alice \<and> OpenChannel io1 = Inr 1 \<and>
   fst (verification lib0 state1 io1 (session_alice\<lparr>Agent := Some 1\<rparr>) 1) \<and>
   canConnectTo heap1 session_alice ''db-01:5432'' = Returns (policy_allows alice ''db-01:5432'') \<and>
   (Reject ConnectionFailed ''invalid permissions''
      \<in> set (snd (handleChannelForward lib0 state1 heap1 io1 channel_db session_alice)) \<longleftrightarrow>
    \<not> policy_allows alice (RAddr (fst (Unmarshal lib0 (ExtraData channel_db) zero_msg)))) \<and>
   RAddr (fst (Unmarshal lib0 (ExtraData channel_db) zero_msg)) = ''db-01'' \<and>
   policy_allows alice ''db-01'' \<and> \<not> policy_allows alice ''db-01:5432''"
proof -
  have 1: "deref heap1 (Account session_alice) = Some alice"
    by (simp add: deref_def heap1_def session_alice_def NewSSHSession_def state1_def)
  have 2: "OpenChannel io1 = Inr 1" by (simp add: io1_def)
  have 3: "fst (verification lib0 state1 io1 (session_alice\<lparr>Agent := Some 1\<rparr>) 1)"
    by (simp add: handler_defs input_defs)
  note c = policy_decision [OF 1, where host = "''db-01:5432''" and io = io1 and agentChan = 1
      and L = lib0 and st = state1 and ch = channel_db]
  from c have 4: "canConnectTo heap1 session_alice ''db-01:5432'' = Returns (policy_allows alice ''db-01:5432'')"
    by (rule conjunct1)
  from c 2 3 have 5: "Reject ConnectionFailed ''invalid permissions''
      \<in> set (snd (handleChannelForward lib0 state1 heap1 io1 channel_db session_alice)) \<longleftrightarrow>
    \<not> policy_allows alice (RAddr (fst (Unmarshal lib0 (ExtraData channel_db) zero_msg)))"
    by simp
  have 6: "RAddr (fst (Unmarshal lib0 (ExtraData channel_db) zero_msg)) = ''db-01''"
    by (simp add: lib0_def channel_db_def Unmarshal_data_db)
  have 7: "policy_allows alice ''db-01''" and 8: "\<not> policy_allows alice ''db-01:5432''"
    by (simp_all add: policy_allows_def alice_def zero_Account_def)
  from 1 2 3 4 5 6 7 8 show ?thesis by (intro conjI)
qed

section \<open>The temporary credential\<close>



section \<open>A destination the policy denies\<close>

text \<open>
  C7, as amended. When the handler reaches the policy check and the policy denies the
  host, the channel is rejected with \<open>ConnectionFailed\<close> and ``invalid permissions'';
  after the effects of the stages before the check (the agent channel opened and
  stored on the session, the verification) the handler only logs and rejects: no
  certificate is issued, no key added, nobody notified, nothing dialled, accepted or
  proxied, and the list of proxied connections is unchanged.
\<close>

theorem policy_deny_effects:
  assumes "OpenChannel io = Inr agentChan"
    and "verification L st io (s\<lparr>Agent := Some agentChan\<rparr>) agentChan = (True, s1, tr1)"
    and "canConnectTo h s1 (RAddr (fst (Unmarshal L (ExtraData ch) zero_msg))) = Returns False"
  shows "handleChannelForward L st h io ch s =
       (s1, Open_Channel ''auth-agent@openssh.com'' # tr1 @
            [Log_Error ''Rejecting forward: destination does not match whitelist/blacklist checks'',
             Reject ConnectionFailed ''invalid permissions'']) \<and>
     filter issuance_or_later (snd (handleChannelForward L st h io ch s)) = [] \<and>
     Proxies (fst (handleChannelForward L st h io ch s)) = Proxies s"
proof -
  let ?s = "s\<lparr>Agent := Some agentChan\<rparr>"
  from assms(1,2) forward_deny [OF assms(3)] have res: "handleChannelForward L st h io ch s =
       (s1, Open_Channel ''auth-agent@openssh.com'' # tr1 @
            [Log_Error ''Rejecting forward: destination does not match whitelist/blacklist checks'',
             Reject ConnectionFailed ''invalid permissions''])"
    by (simp add: handleChannelForward_def)
  from verification_not_later [of L st io ?s agentChan] assms(2)
  have tr1: "filter issuance_or_later tr1 = []" by simp
  from verification_Proxies [of L st io ?s agentChan] assms(2)
  have p: "Proxies s1 = Proxies s" by simp
  from res tr1 p show ?thesis by simp
qed

theorem policy_deny_effects_witness:
  "OpenChannel io_other_key = Inr 1 \<and>
   verification lib0 state1 io_other_key (session_bob\<lparr>Agent := Some 1\<rparr>) 1 =
     (True, session_bob\<lparr>Agent := Some 1, verified := True\<rparr>,
      [Agent_Signers 1, Random_Token, Signer_Sign (Wire ''K2''),
       Log_Info ''Public key verification completed'']) \<and>
   canConnectTo heap1 (session_bob\<lparr>Agent := Some 1, verified := True\<rparr>)
     (RAddr (fst (Unmarshal lib0 (ExtraData channel_evil) zero_msg))) = Returns False \<and>
   handleChannelForward lib0 state1 heap1 io_other_key channel_evil session_bob =
     (session_bob\<lparr>Agent := Some 1, verified := True\<rparr>,
      Open_Channel ''auth-agent@openssh.com'' #
      [Agent_Signers 1, Random_Token, Signer_Sign (Wire ''K2''),
       Log_Info ''Public key verification completed''] @
      [Log_Error ''Rejecting forward: destination does not match whitelist/blacklist checks'',
       Reject ConnectionFailed ''invalid permissions'']) \<and>
   filter issuance_or_later (snd (handleChannelForward lib0 state1 heap1 io_other_key channel_evil session_bob)) = [] \<and>
   Proxies (fst (handleChannelForward lib0 state1 heap1 io_other_key channel_evil session_bob)) = Proxies session_bob"
proof -
  have 1: "OpenChannel io_other_key = Inr 1" by (simp add: io_other_key_def io1_def)
  note c = policy_deny_effects [OF 1 bob_verification bob_evil_denied]
  from 1 bob_verification bob_evil_denied c show ?thesis by (intro conjI) simp_all
qed

text \<open>
  C7 as stated fails: \<open>bob\<close> asks for the blacklisted host on a fresh session. The
  policy denies, and the handler has by then opened an agent channel, stored it on
  the session, had the agent sign a token and marked the session verified.
\<close>

theorem policy_deny_after_verification_effects:
  "canConnectTo heap1 (session_bob\<lparr>Agent := Some 1, verified := True\<rparr>)
     (RAddr (fst (Unmarshal lib0 (ExtraData channel_evil) zero_msg))) = Returns False \<and>
   Agent session_bob = None \<and> \<not> verified session_bob \<and>
   handleChannelForward lib0 state1 heap1 io_other_key channel_evil session_bob =
     (session_bob\<lparr>Agent := Some 1, verified := True\<rparr>,
      [Open_Channel ''auth-agent@openssh.com'', Agent_Signers 1, Random_Token,
       Signer_Sign (Wire ''K2''), Log_Info ''Public key verification completed'',
       Log_Error ''Rejecting forward: destination does not match whitelist/blacklist checks'',
       Reject ConnectionFailed ''invalid permissions'']) \<and>
   fst (handleChannelForward lib0 state1 heap1 io_other_key channel_evil session_bob) \<noteq> session_bob"
  by (simp add: handler_defs input_defs more_input_defs Unmarshal_data_evil)

section \<open>The agent handle of the session\<close>

text \<open>
  C8, as amended. The agent handle is stored on the session but not reused: every
  forward channel begins by opening a new \<open>auth-agent@openssh.com\<close> channel; when that
  succeeds the handler replaces the handle of the session by the client on the new
  channel, whatever it was; when it fails the channel is rejected with \<open>Prohibited\<close>
  and the handler leaves the handle as it was.
\<close>

theorem agent_opened_for_every_channel:
  "hd (snd (handleChannelForward L st h io ch s)) = Open_Channel ''auth-agent@openssh.com'' \<and>
   Agent (fst (handleChannelForward L st h io ch s)) =
     (case OpenChannel io of Inl err \<Rightarrow> Agent s | Inr agentChan \<Rightarrow> Some agentChan) \<and>
   (OpenChannel io = Inl err \<longrightarrow>
      handleChannelForward L st h io ch s =
        (s, [Open_Channel ''auth-agent@openssh.com'',
             Log_Error ''Rejecting forward: failed to open ssh agent'',
             Reject Prohibited ''you must have an ssh agent open and forwarded'']))"
proof (cases "OpenChannel io")
  case (Inl e)
  then show ?thesis by (simp add: handleChannelForward_cases)
next
  case (Inr agentChan)
  let ?s = "s\<lparr>Agent := Some agentChan\<rparr>"
  let ?v = "verification L st io ?s agentChan"
  have va: "Agent (fst (snd ?v)) = Some agentChan"
    by (simp add: verification_Agent)
  from Inr have 1: "hd (snd (handleChannelForward L st h io ch s)) = Open_Channel ''auth-agent@openssh.com''"
    by (simp add: handleChannelForward_cases Let_def)
  from Inr va have 2: "Agent (fst (handleChannelForward L st h io ch s)) = Some agentChan"
    by (simp add: handleChannelForward_cases Let_def forward_Agent)
  from Inr 1 2 show ?thesis by simp
qed

theorem agent_opened_for_every_channel_witness:
  "OpenChannel io2 = Inr 2 \<and>
   hd (snd (handleChannelForward lib0 state1 heap1 io2 channel_db alice_after_first)) =
     Open_Channel ''auth-agent@openssh.com'' \<and>
   Agent (fst (handleChannelForward lib0 state1 heap1 io2 channel_db alice_after_first)) = Some 2 \<and>
   Agent alice_after_first = Some 1 \<and>
   OpenChannel (io2\<lparr>OpenChannel := Inl ''open failed''\<rparr>) = Inl ''open failed'' \<and>
   handleChannelForward lib0 state1 heap1 (io2\<lparr>OpenChannel := Inl ''open failed''\<rparr>) channel_db alice_after_first =
     (alice_after_first,
      [Open_Channel ''auth-agent@openssh.com'',
       Log_Error ''Rejecting forward: failed to open ssh agent'',
       Reject Prohibited ''you must have an ssh agent open and forwarded''])"
proof -
  note c = agent_opened_for_every_channel [where L = lib0
      and st = state1 and h = heap1 and io = io2 and ch = channel_db and s = alice_after_first]
  have 2: "OpenChannel io2 = Inr 2" by (simp add: io2_def)
  from c have 3: "hd (snd (handleChannelForward lib0 state1 heap1 io2 channel_db alice_after_first)) =
     Open_Channel ''auth-agent@openssh.com''" by (rule conjunct1)
  from c 2 have 4: "Agent (fst (handleChannelForward lib0 state1 heap1 io2 channel_db alice_after_first)) = Some 2"
    by simp
  have 5: "Agent alice_after_first = Some 1" by (simp add: alice_after_first_def)
  have 6: "OpenChannel (io2\<lparr>OpenChannel := Inl ''open failed''\<rparr>) = Inl ''open failed''" by simp
  note d = agent_opened_for_every_channel [where err = "''open failed''" and L = lib0
      and st = state1 and h = heap1 and io = "io2\<lparr>OpenChannel := Inl ''open failed''\<rparr>"
      and ch = channel_db and s = alice_after_first, THEN conjunct2, THEN conjunct2,
      THEN mp, OF 6]
  from 2 3 4 5 6 d show ?thesis by (intro conjI)
qed

text \<open>
  C8 as stated fails: after a first forward channel the session of \<open>alice\<close> holds the
  agent on channel 1; a second forward channel on that session opens an agent channel
  again and leaves the session with the agent on channel 2.
\<close>

theorem second_channel_opens_and_replaces_agent:
  "handleChannelForward lib0 state1 heap1 io1 channel_db session_alice =
     (alice_after_first,
      [Open_Channel ''auth-agent@openssh.com'', Agent_Signers 1, Random_Token,
       Signer_Sign (Wire ''K1''), Log_Info ''Public key verification completed'',
       CA_Generate ''uuid-1'' ''alice'' [], Agent_Add_Key 1 added_key1,
       Notify_Session_Start ''discord'' ''alice'' ''uuid-1'' ''db-01'' ''10.0.0.7:50022'',
       Net_Dial ''tcp'' ''db-01:5432'', Accept_Channel, Start_Proxy 1 (Some 3) 7]) \<and>
   Agent alice_after_first = Some 1 \<and>
   handleChannelForward lib0 state1 heap1 io2 channel_db alice_after_first =
     (alice_after_first\<lparr>Agent := Some 2, Proxies := [7, 8]\<rparr>,
      [Open_Channel ''auth-agent@openssh.com'',
       CA_Generate ''uuid-1'' ''alice'' [], Agent_Add_Key 2 added_key1,
       Notify_Session_Start ''discord'' ''alice'' ''uuid-1'' ''db-01'' ''10.0.0.7:50022'',
       Net_Dial ''tcp'' ''db-01:5432'', Accept_Channel, Start_Proxy 2 (Some 4) 8])"
  by (simp add: handler_defs input_defs more_input_defs Unmarshal_data_db)

section \<open>The teardown\<close>

lemma triggers_done: "closer_done p \<Longrightarrow> triggers ds p = p"
  by (induction ds) (simp_all add: copy_returned_def Once_Do_def)

text \<open>
  C9. Whatever the order in which the two copy directions return, and however often
  the latch is triggered, as soon as it is triggered at all the closure has run
  exactly once: the agent channel, the client channel and the TCP connection have
  each been closed once.
\<close>

theorem teardown_runs_once:
  "ds \<noteq> [] \<Longrightarrow>
     triggers ds new_proxy =
       \<lparr>closer_done = True, agentChan_closed = 1, channel_closed = 1, conn_closed = 1\<rparr>"
proof (cases ds)
  case Nil
  assume "ds \<noteq> []"
  with Nil show ?thesis by simp
next
  case (Cons d rest)
  have first: "copy_returned d new_proxy =
      \<lparr>closer_done = True, agentChan_closed = 1, channel_closed = 1, conn_closed = 1\<rparr>"
    by (simp add: copy_returned_def Once_Do_def closeFunc_def new_proxy_def)
  have "triggers rest (copy_returned d new_proxy) = copy_returned d new_proxy"
    by (rule triggers_done) (simp add: first)
  with Cons first show ?thesis by simp
qed

theorem teardown_runs_once_witness:
  "[Conn_To_Channel, Channel_To_Conn] \<noteq> [] \<and>
   triggers [Conn_To_Channel, Channel_To_Conn] new_proxy =
     \<lparr>closer_done = True, agentChan_closed = 1, channel_closed = 1, conn_closed = 1\<rparr> \<and>
   [Channel_To_Conn, Conn_To_Channel] \<noteq> [] \<and>
   triggers [Channel_To_Conn, Conn_To_Channel] new_proxy =
     \<lparr>closer_done = True, agentChan_closed = 1, channel_closed = 1, conn_closed = 1\<rparr> \<and>
   [Channel_To_Conn] \<noteq> [] \<and>
   triggers [Channel_To_Conn] new_proxy =
     \<lparr>closer_done = True, agentChan_closed = 1, channel_closed = 1, conn_closed = 1\<rparr>"
proof -
  have a: "[Conn_To_Channel, Channel_To_Conn] \<noteq> []" and b: "[Channel_To_Conn, Conn_To_Channel] \<noteq> []"
    and c: "[Channel_To_Conn] \<noteq> []" by simp_all
  from a b c teardown_runs_once [OF a] teardown_runs_once [OF b] teardown_runs_once [OF c]
  show ?thesis by (intro conjI)
qed

section \<open>A forward request that does not decode\<close>

lemma alice_verification:
  "verification lib0 state1 io1 (session_alice\<lparr>Agent := Some 1\<rparr>) 1 =
     (True, alice_after_first\<lparr>Proxies := []\<rparr>,
      [Agent_Signers 1, Random_Token, Signer_Sign (Wire ''K1''),
       Log_Info ''Public key verification completed''])"
  by (simp add: handler_defs input_defs more_input_defs)

text \<open>
  C10, as amended. The handler never rejects a channel for a decoding failure: the
  error of \<open>ssh.Unmarshal\<close> is discarded, the handler behaves as with a decoder that
  reports no error. It goes on with the request as the decoder left it: the host and
  the port are the decoded ones when they were read before the failure, and empty and
  0 only when the failure came before them. Once the verification block lets the
  channel through, the policy decision is the one of \<open>canConnectTo\<close> on that host, and
  the handler dials, when it dials, exactly \<open>host:port\<close> for that host and port.
\<close>

theorem decode_error_is_discarded:
  assumes "Unmarshal L = ssh_Unmarshal"
    and "OpenChannel io = Inr agentChan"
    and "verification L st io (s\<lparr>Agent := Some agentChan\<rparr>) agentChan = (True, s1, tr1)"
  shows "handleChannelForward L st h io ch s =
       handleChannelForward (L\<lparr>Unmarshal := (\<lambda>data out. (fst (Unmarshal L data out), None))\<rparr>) st h io ch s \<and>
     RAddr (fst (ssh_Unmarshal data zero_msg)) =
       (if data = [] then []
        else case parseString data of None \<Rightarrow> [] | Some (raddr, data1) \<Rightarrow> raddr) \<and>
     RPort (fst (ssh_Unmarshal data zero_msg)) =
       (if data = [] then 0
        else case parseString data of
          None \<Rightarrow> 0
        | Some (raddr, data1) \<Rightarrow> (case parseUint32 data1 of None \<Rightarrow> 0 | Some (rport, data2) \<Rightarrow> rport)) \<and>
     (Reject ConnectionFailed ''invalid permissions'' \<in> set (snd (handleChannelForward L st h io ch s)) \<longleftrightarrow>
        canConnectTo h s (RAddr (fst (ssh_Unmarshal (ExtraData ch) zero_msg))) = Returns False) \<and>
     (Net_Dial network address \<in> set (snd (handleChannelForward L st h io ch s)) \<longleftrightarrow>
        network = ''tcp'' \<and>
        address = RAddr (fst (ssh_Unmarshal (ExtraData ch) zero_msg)) @ '':'' @
                  decimal (unat (RPort (fst (ssh_Unmarshal (ExtraData ch) zero_msg)))) \<and>
        canConnectTo h s (RAddr (fst (ssh_Unmarshal (ExtraData ch) zero_msg))) = Returns True \<and>
        fst (addTempAuth st h io s1 (RAddr (fst (ssh_Unmarshal (ExtraData ch) zero_msg)))) = Returns None)"
proof -
  let ?L = "L\<lparr>Unmarshal := (\<lambda>data out. (fst (Unmarshal L data out), None))\<rparr>"
  let ?host = "RAddr (fst (ssh_Unmarshal (ExtraData ch) zero_msg))"
  let ?rej = "Reject ConnectionFailed ''invalid permissions''"
  let ?tr = "snd (handleChannelForward L st h io ch s)"
  have vs: "verify_signers ?L st io s' signers = verify_signers L st io s' signers" for s' signers
    by (induction signers) (simp_all split: option.splits sum.splits)
  have v: "verification ?L st io s' agent = verification L st io s' agent" for s' agent
    by (simp add: verification_def vs split: sum.splits)
  have f: "forward ?L st h io ch s' agent = forward L st h io ch s' agent" for s' agent
    by (simp add: forward_def)
  have 1: "handleChannelForward L st h io ch s = handleChannelForward ?L st h io ch s"
    by (cases "OpenChannel io") (simp_all add: handleChannelForward_cases Let_def v f)
  have 2: "RAddr (fst (ssh_Unmarshal data zero_msg)) =
     (if data = [] then []
      else case parseString data of None \<Rightarrow> [] | Some (raddr, data1) \<Rightarrow> raddr)"
    by (simp add: ssh_Unmarshal_def zero_msg_def split: option.splits prod.splits)
  have 3: "RPort (fst (ssh_Unmarshal data zero_msg)) =
     (if data = [] then 0
      else case parseString data of
        None \<Rightarrow> 0
      | Some (raddr, data1) \<Rightarrow> (case parseUint32 data1 of None \<Rightarrow> 0 | Some (rport, data2) \<Rightarrow> rport))"
    by (simp add: ssh_Unmarshal_def zero_msg_def split: option.splits prod.splits)
  from assms(3) have s1: "s1 = fst (snd (verification L st io (s\<lparr>Agent := Some agentChan\<rparr>) agentChan))"
    and tr1: "tr1 = snd (snd (verification L st io (s\<lparr>Agent := Some agentChan\<rparr>) agentChan))"
    by simp_all
  have acc: "Account s1 = Account s" unfolding s1 by (simp add: verification_Account)
  have pol: "canConnectTo h s1 x = canConnectTo h s x" for x
    using acc by (simp add: canConnectTo_def)
  have tr: "?tr = Open_Channel ''auth-agent@openssh.com'' # tr1 @ snd (forward L st h io ch s1 agentChan)"
    unfolding handler_after_verification [OF assms(2,3)] by simp
  from verification_events [of L st io "s\<lparr>Agent := Some agentChan\<rparr>" agentChan]
  have nr: "?rej \<notin> set tr1" unfolding tr1 by (auto simp: list_all_iff)
  from verification_not_later [of L st io "s\<lparr>Agent := Some agentChan\<rparr>" agentChan]
  have nd: "Net_Dial network address \<notin> set tr1" unfolding tr1 by (auto simp: filter_empty_conv)
  have 4: "?rej \<in> set ?tr \<longleftrightarrow> canConnectTo h s ?host = Returns False"
    unfolding tr using nr forward_invalid_permissions [of L st h io ch s1 agentChan]
    by (simp add: assms(1) pol)
  have 5: "Net_Dial network address \<in> set ?tr \<longleftrightarrow>
        network = ''tcp'' \<and>
        address = ?host @ '':'' @ decimal (unat (RPort (fst (ssh_Unmarshal (ExtraData ch) zero_msg)))) \<and>
        canConnectTo h s ?host = Returns True \<and>
        fst (addTempAuth st h io s1 ?host) = Returns None"
    unfolding tr using nd forward_Net_Dial [of network address L st h io ch s1 agentChan]
    by (simp add: assms(1) pol)
  from 1 2 3 4 5 show ?thesis by (intro conjI)
qed

theorem decode_error_is_discarded_witness:
  "Unmarshal lib0 = ssh_Unmarshal \<and> OpenChannel io1 = Inr 1 \<and>
   verification lib0 state1 io1 (session_alice\<lparr>Agent := Some 1\<rparr>) 1 =
     (True, alice_after_first\<lparr>Proxies := []\<rparr>,
      [Agent_Signers 1, Random_Token, Signer_Sign (Wire ''K1''),
       Log_Info ''Public key verification completed'']) \<and>
   snd (ssh_Unmarshal (ExtraData channel_short) zero_msg) = Some ''ssh: short read'' \<and>
   RAddr (fst (ssh_Unmarshal (ExtraData channel_short) zero_msg)) = ''db-01'' \<and>
   RPort (fst (ssh_Unmarshal (ExtraData channel_short) zero_msg)) = 0 \<and>
   canConnectTo heap1 session_alice ''db-01'' = Returns True \<and>
   canConnectTo heap1 session_alice [] = Returns False \<and>
   fst (addTempAuth state1 heap1 io1 (alice_after_first\<lparr>Proxies := []\<rparr>) ''db-01'') = Returns None \<and>
   Reject ConnectionFailed ''invalid permissions''
     \<notin> set (snd (handleChannelForward lib0 state1 heap1 io1 channel_short session_alice)) \<and>
   Net_Dial ''tcp'' ''db-01:0''
     \<in> set (snd (handleChannelForward lib0 state1 heap1 io1 channel_short session_alice)) \<and>
   Net_Dial ''tcp'' '':0''
     \<notin> set (snd (handleChannelForward lib0 state1 heap1 io1 channel_short session_alice))"
proof -
  have 1: "Unmarshal lib0 = ssh_Unmarshal" by (simp add: lib0_def)
  have 2: "OpenChannel io1 = Inr 1" by (simp add: io1_def)
  have u: "ssh_Unmarshal (ExtraData channel_short) zero_msg =
      (\<lparr>RAddr = ''db-01'', RPort = 0, LAddr = [], LPort = 0\<rparr>, Some ''ssh: short read'')"
    by (simp add: channel_short_def Unmarshal_data_short)
  have e: "snd (ssh_Unmarshal (ExtraData channel_short) zero_msg) = Some ''ssh: short read''"
    and ra: "RAddr (fst (ssh_Unmarshal (ExtraData channel_short) zero_msg)) = ''db-01''"
    and rp: "RPort (fst (ssh_Unmarshal (ExtraData channel_short) zero_msg)) = 0"
    by (simp_all add: u)
  have a: "canConnectTo heap1 session_alice ''db-01'' = Returns True"
    and z: "canConnectTo heap1 session_alice [] = Returns False"
    by (simp_all add: handler_defs input_defs)
  have t: "fst (addTempAuth state1 heap1 io1 (alice_after_first\<lparr>Proxies := []\<rparr>) ''db-01'') = Returns None"
    by (simp add: handler_defs input_defs more_input_defs)
  have dz: "decimal 0 = ''0''" by (simp add: decimal.simps)
  note c = decode_error_is_discarded [OF 1 2 alice_verification, where h = heap1 and ch = channel_short]
  note pol = c [THEN conjunct2, THEN conjunct2, THEN conjunct2, THEN conjunct1]
  note dial = c [THEN conjunct2, THEN conjunct2, THEN conjunct2, THEN conjunct2]
  from pol a have 3: "Reject ConnectionFailed ''invalid permissions''
     \<notin> set (snd (handleChannelForward lib0 state1 heap1 io1 channel_short session_alice))"
    by (simp add: ra)
  from dial [of "''tcp''" "''db-01:0''"] a t have 4: "Net_Dial ''tcp'' ''db-01:0''
     \<in> set (snd (handleChannelForward lib0 state1 heap1 io1 channel_short session_alice))"
    by (simp add: ra rp dz)
  from dial [of "''tcp''" "'':0''"] have 5: "Net_Dial ''tcp'' '':0''
     \<notin> set (snd (handleChannelForward lib0 state1 heap1 io1 channel_short session_alice))"
    by (simp add: ra rp dz)
  from 1 2 alice_verification e ra rp a z t 3 4 5 show ?thesis by (intro conjI)
qed

text \<open>
  C10 as stated fails: a request cut off in the middle of the port does not decode,
  and the handler goes on with the host \<open>db-01\<close> that was read, not with the empty
  host: the whitelist of \<open>alice\<close>, which denies the empty host, allows the request, and
  the handler dials \<open>db-01:0\<close>.
\<close>

theorem truncated_request_is_not_zero_valued:
  "ssh_Unmarshal (ExtraData channel_short) zero_msg =
     (\<lparr>RAddr = ''db-01'', RPort = 0, LAddr = [], LPort = 0\<rparr>, Some ''ssh: short read'') \<and>
   canConnectTo heap1 session_alice [] = Returns False \<and>
   handleChannelForward lib0 state1 heap1 io1 channel_short session_alice =
     (alice_after_first,
      [Open_Channel ''auth-agent@openssh.com'', Agent_Signers 1, Random_Token,
       Signer_Sign (Wire ''K1''), Log_Info ''Public key verification completed'',
       CA_Generate ''uuid-1'' ''alice'' [], Agent_Add_Key 1 added_key1,
       Notify_Session_Start ''discord'' ''alice'' ''uuid-1'' ''db-01'' ''10.0.0.7:50022'',
       Net_Dial ''tcp'' ''db-01:0'', Accept_Channel, Start_Proxy 1 (Some 3) 7])"
  by (simp add: handler_defs input_defs more_input_defs Unmarshal_data_short)

end
